theory Spec2Isabelle
  imports Main "HOL-Library.Word" "HOL-Library.AList"
begin

section \<open>The tracer of pkg/util/tracing/tracer.go\<close>

text \<open>
  A shallow embedding of \<^verbatim>\<open>Tracer.StartSpan\<close>, \<^verbatim>\<open>Tracer.Inject\<close> and
  \<^verbatim>\<open>Tracer.Extract\<close>. Go values are modelled as follows.
  \<^item> \<^verbatim>\<open>uint64\<close> is a 64-bit word.
  \<^item> A Go string is a list of bytes (\<open>string\<close>).
  \<^item> A Go \<^verbatim>\<open>map[string]T\<close> is an association list with distinct keys; the order of
    the list is the order in which a \<^verbatim>\<open>range\<close> over the map visits the entries (Go
    leaves that order open, so the theorems below hold for every order). A nil map and an
    empty map are both \<open>[]\<close>; the tags of the start options, which the source tests
    against nil, are an \<open>option\<close>.
  \<^item> A value of an interface type is a datatype with one constructor per dynamic type the
    source distinguishes.
  \<^item> A panic is the left summand of \<open>panic + 'a\<close>; a returned error is a value of type
    \<open>error\<close>.
  \<^item> What the Go runtime, the cluster settings and the external backend supply (random
    numbers, the clock, fresh addresses, the two settings, the backend's answers) is read
    from a record \<open>env\<close>.
\<close>

subsection \<open>Strings and numbers: the standard library calls of the source\<close>

type_synonym uint64 = "64 word"

text \<open>
  \<^verbatim>\<open>strings.ToLower\<close>. On a string of ASCII bytes it maps \<^verbatim>\<open>'A'..'Z'\<close> to
  \<^verbatim>\<open>'a'..'z'\<close> byte by byte. On a string with a byte from 0x80 on it maps every rune
  through the Unicode tables, which are no part of this repository: that mapping is the
  parameter \<open>u\<close>.
\<close>

definition isASCII :: "string \<Rightarrow> bool" where
  "isASCII s = list_all (\<lambda>c. (of_char c :: nat) < 128) s"

definition lowerByte :: "char \<Rightarrow> char" where
  "lowerByte c =
     (if 65 \<le> (of_char c :: nat) \<and> (of_char c :: nat) \<le> 90
      then char_of ((of_char c :: nat) + 32) else c)"

definition ToLower :: "(string \<Rightarrow> string) \<Rightarrow> string \<Rightarrow> string" where
  "ToLower u s = (if isASCII s then map lowerByte s else u s)"

text \<open>\<^verbatim>\<open>strings.HasPrefix\<close> and \<^verbatim>\<open>strings.TrimPrefix\<close>.\<close>

definition HasPrefix :: "string \<Rightarrow> string \<Rightarrow> bool" where
  "HasPrefix s p = (length p \<le> length s \<and> take (length p) s = p)"

definition TrimPrefix :: "string \<Rightarrow> string \<Rightarrow> string" where
  "TrimPrefix s p = (if HasPrefix s p then drop (length p) s else s)"

text \<open>
  \<^verbatim>\<open>strconv.ParseUint(s, 16, 64)\<close>: the empty string, a byte that is no hexadecimal
  digit and a value beyond 64 bits are errors (\<open>None\<close>). No sign, no prefix and no
  underscore is accepted in base 16.
\<close>

definition digitVal :: "char \<Rightarrow> nat option" where
  "digitVal c =
     (let n = (of_char c :: nat) in
      if 48 \<le> n \<and> n \<le> 57 then Some (n - 48)
      else if 97 \<le> n \<and> n \<le> 122 then Some (n - 97 + 10)
      else if 65 \<le> n \<and> n \<le> 90 then Some (n - 65 + 10)
      else None)"

fun parseLoop :: "nat \<Rightarrow> string \<Rightarrow> nat option" where
  "parseLoop n [] = Some n"
| "parseLoop n (c # cs) =
     (case digitVal c of
        None \<Rightarrow> None
      | Some d \<Rightarrow>
          if d \<ge> 16 then None
          else if n \<ge> 2 ^ 64 div 16 then None
          else if n * 16 + d > 2 ^ 64 - 1 then None
          else parseLoop (n * 16 + d) cs)"

definition ParseUint :: "string \<Rightarrow> uint64 option" where
  "ParseUint s = (if s = [] then None else map_option word_of_nat (parseLoop 0 s))"

text \<open>\<^verbatim>\<open>strconv.FormatUint(x, 16)\<close>: lower-case hexadecimal, no leading zeros.\<close>

definition digits :: string where
  "digits = ''0123456789abcdefghijklmnopqrstuvwxyz''"

fun formatBits :: "nat \<Rightarrow> string" where
  "formatBits u =
     (if u \<ge> 16 then formatBits (u div 16) @ [digits ! (u mod 16)] else [digits ! u])"

definition FormatUint :: "uint64 \<Rightarrow> string" where
  "FormatUint x = formatBits (unat x)"

text \<open>Indexing a Go map: a missing key gives the zero value, here the empty string.\<close>

definition mapIndex :: "(string \<times> string) list \<Rightarrow> string \<Rightarrow> string" where
  "mapIndex m k = (case map_of m k of None \<Rightarrow> [] | Some v \<Rightarrow> v)"

subsection \<open>Constants of the package\<close>

definition Snowball :: string where
  "Snowball = ''sb''"

definition maxLogsPerSpan :: nat where
  "maxLogsPerSpan = 1000"

definition prefixTracerState :: string where
  "prefixTracerState = ''ot-tracer-''"

definition prefixBaggage :: string where
  "prefixBaggage = ''ot-baggage-''"

definition fieldNameTraceID :: string where
  "fieldNameTraceID = prefixTracerState @ ''traceid''"

definition fieldNameSpanID :: string where
  "fieldNameSpanID = prefixTracerState @ ''spanid''"

definition fieldNameSampled :: string where
  "fieldNameSampled = prefixTracerState @ ''sampled''"

subsection \<open>Data\<close>

text \<open>
  Addresses and opaque handles are natural numbers: a \<^verbatim>\<open>*Tracer\<close>, a
  \<^verbatim>\<open>*spanGroup\<close>, and a span or span context of the external backend. Equality of
  two of them is pointer identity. A \<^verbatim>\<open>time.Time\<close> is its distance from the zero
  time, so \<^verbatim>\<open>IsZero\<close> is equality with 0.
\<close>

type_synonym TracerPtr = nat

type_synonym spanGroupPtr = nat

type_synonym lsHandle = nat

type_synonym Time = int

text \<open>
  The recording types. The source names \<^verbatim>\<open>SnowballRecording\<close>; the zero value of the
  type carries the name the specification gives it.
\<close>

datatype RecordingType = NotRecording | SnowballRecording

text \<open>
  \<^verbatim>\<open>spanContext\<close> and \<^verbatim>\<open>span\<close> are declared in a file that is not at hand; the
  records have the fields that tracer.go reads and writes. Both carry \<^verbatim>\<open>TraceID\<close> and
  \<^verbatim>\<open>SpanID\<close>. The fields \<open>mu_tags\<close>, \<open>mu_recordingGroup\<close> and
  \<open>mu_recordingType\<close> are the ones \<^verbatim>\<open>SetTag\<close> and \<^verbatim>\<open>enableRecording\<close> write
  according to the specification; \<open>s_lightstep\<close> is the span's field \<^verbatim>\<open>lightstep\<close>.
\<close>

record spanMeta =
  TraceID :: uint64
  SpanID :: uint64

record spanContext = spanMeta +
  lightstep :: "lsHandle option"
  recordingGroup :: "spanGroupPtr option"
  recordingType :: RecordingType
  Baggage :: "(string \<times> string) list"

text \<open>
  A value of the interface \<^verbatim>\<open>opentracing.SpanContext\<close>: nil, a
  \<^verbatim>\<open>noopSpanContext\<close>, a \<^verbatim>\<open>*spanContext\<close> (never a nil pointer: the package makes
  none), or a context of another tracer.
\<close>

datatype SpanContext =
    NilSpanContext
  | NoopSpanContext
  | SpanContextPtr spanContext
  | ForeignSpanContext lsHandle

datatype tagValue = StringTag string | OtherTag nat

record netTrace =
  family :: string
  title :: string
  maxEvents :: nat

record span = spanMeta +
  tracer :: TracerPtr
  operation :: string
  startTime :: Time
  mu_duration :: int
  s_lightstep :: "lsHandle option"
  parentSpanID :: uint64
  netTr :: "netTrace option"
  mu_Baggage :: "(string \<times> string) list"
  mu_tags :: "(string \<times> tagValue) list"
  mu_recordingGroup :: "spanGroupPtr option"
  mu_recordingType :: RecordingType

text \<open>
  A value of the interface \<^verbatim>\<open>opentracing.Span\<close> as \<^verbatim>\<open>StartSpan\<close> returns it:
  the address of the \<^verbatim>\<open>noopSpan\<close> field of a Tracer, or a newly allocated span.
\<close>

datatype Span = NoopSpanPtr TracerPtr | SpanPtr span

text \<open>
  The formats and carriers of opentracing-go. A \<^verbatim>\<open>TextMapCarrier\<close> is a Go map and
  implements both \<^verbatim>\<open>TextMapWriter\<close> and \<^verbatim>\<open>TextMapReader\<close>; its list holds the
  entries in the order \<^verbatim>\<open>ForeachKey\<close> presents them. Extract sees a reader only
  through the sequence of handler calls it makes, so what is proved of Extract for every
  list, with or without repeated keys, holds for every \<^verbatim>\<open>TextMapReader\<close> that presents
  its entries in turn and stops at the first error. \<open>OtherCarrier\<close> stands for a
  carrier that implements neither interface.
\<close>

datatype format = Binary | TextMap | HTTPHeaders | OtherFormat

datatype carrier = TextMapCarrier "(string \<times> string) list" | OtherCarrier

datatype error =
    ErrUnsupportedFormat
  | ErrInvalidCarrier
  | ErrInvalidSpanContext
  | ErrSpanContextCorrupted
  | BackendError nat

datatype panic =
    InterfaceConversion
  | ParseUintFailed string
  | ErrorInjectingLightstepContext error
  | LightstepDidNotInjectIDs uint64 uint64
  | LightstepFromNonLightstep
  | TraceIDMismatch uint64 uint64

text \<open>The options of opentracing-go that \<^verbatim>\<open>StartSpan\<close> receives.\<close>

datatype SpanReferenceType = ChildOfRef | FollowsFromRef | OtherRefType

datatype StartSpanOption =
    SpanReference SpanReferenceType SpanContext
  | StartTime Time
  | Tags "(string \<times> tagValue) list"
  | Tag string tagValue
  | recordableOption

record StartSpanOptions =
  sso_References :: "(SpanReferenceType \<times> SpanContext) list"
  sso_StartTime :: Time
  sso_Tags :: "(string \<times> tagValue) list option"

text \<open>
  The external backend, an opaque collaborator: starting a shadow span gives a handle,
  \<^verbatim>\<open>Context()\<close> of a shadow span gives the handle of its context,
  \<^verbatim>\<open>Inject\<close> makes a sequence of \<^verbatim>\<open>Set\<close> calls on the carrier and returns an
  error or nil, \<^verbatim>\<open>Extract\<close> returns an error or a context (possibly nil).
\<close>

record lightstepTracer =
  ls_StartSpan :: "string \<Rightarrow> StartSpanOption list \<Rightarrow> lsHandle"
  ls_Context :: "lsHandle \<Rightarrow> lsHandle"
  ls_Inject :: "lsHandle \<Rightarrow> (string \<times> string) list \<times> error option"
  ls_Extract :: "format \<Rightarrow> carrier \<Rightarrow> error + lsHandle option"

text \<open>
  What a call reads from outside: \<^verbatim>\<open>enableNetTrace.Get()\<close>, \<^verbatim>\<open>getLightstep()\<close>
  (\<open>None\<close> is nil), the values of the next two calls of \<^verbatim>\<open>rand.Int63\<close>,
  \<^verbatim>\<open>time.Now()\<close>, the address \<^verbatim>\<open>new(spanGroup)\<close> returns, and the Unicode part
  of \<^verbatim>\<open>strings.ToLower\<close>.
\<close>

record env =
  enableNetTrace :: bool
  getLightstep :: "lightstepTracer option"
  rand1 :: uint64
  rand2 :: uint64
  timeNow :: Time
  newSpanGroup :: spanGroupPtr
  unicodeToLower :: "string \<Rightarrow> string"

subsection \<open>Inject\<close>

text \<open>\<^verbatim>\<open>TextMapCarrier.Set\<close>: an assignment to the Go map.\<close>

definition TextMapCarrier_Set ::
  "string \<Rightarrow> string \<Rightarrow> (string \<times> string) list \<Rightarrow> (string \<times> string) list" where
  "TextMapCarrier_Set key val m = AList.update key val m"

text \<open>
  \<^verbatim>\<open>Tracer.Inject\<close> returns the error (\<open>None\<close> is nil) and the carrier as the call
  leaves it.
\<close>

definition Inject :: "SpanContext \<Rightarrow> format \<Rightarrow> carrier \<Rightarrow> error option \<times> carrier" where
  "Inject osc fmt c =
     (if osc = NoopSpanContext then (None, c)
      else if fmt \<noteq> HTTPHeaders \<and> fmt \<noteq> TextMap then (Some ErrUnsupportedFormat, c)
      else case c of
        OtherCarrier \<Rightarrow> (Some ErrInvalidCarrier, c)
      | TextMapCarrier m \<Rightarrow>
          (case osc of
             SpanContextPtr sc \<Rightarrow>
               (None,
                TextMapCarrier
                  (fold (\<lambda>(k, v). TextMapCarrier_Set (prefixBaggage @ k) v) (Baggage sc)
                     (TextMapCarrier_Set fieldNameSampled ''true''
                        (TextMapCarrier_Set fieldNameSpanID (FormatUint (SpanID sc))
                           (TextMapCarrier_Set fieldNameTraceID (FormatUint (TraceID sc)) m)))))
           | _ \<Rightarrow> (Some ErrInvalidSpanContext, c)))"

subsection \<open>Extract\<close>

text \<open>The zero value of \<^verbatim>\<open>spanContext\<close> (\<^verbatim>\<open>var sc spanContext\<close>).\<close>

definition zeroSpanContext :: spanContext where
  "zeroSpanContext =
     \<lparr>TraceID = 0, SpanID = 0, lightstep = None, recordingGroup = None,
      recordingType = NotRecording, Baggage = []\<rparr>"

text \<open>
  The closure \<^verbatim>\<open>Extract\<close> hands to \<^verbatim>\<open>ForeachKey\<close>, with the \<^verbatim>\<open>sc\<close> it updates
  passed through.
\<close>

definition extractKey ::
  "(string \<Rightarrow> string) \<Rightarrow> string \<Rightarrow> string \<Rightarrow> spanContext \<Rightarrow> error + spanContext" where
  "extractKey u k0 v sc =
     (let k = ToLower u k0 in
      if k = fieldNameTraceID then
        (case ParseUint v of
           None \<Rightarrow> Inl ErrSpanContextCorrupted
         | Some x \<Rightarrow> Inr (sc\<lparr>TraceID := x\<rparr>))
      else if k = fieldNameSpanID then
        (case ParseUint v of
           None \<Rightarrow> Inl ErrSpanContextCorrupted
         | Some x \<Rightarrow> Inr (sc\<lparr>SpanID := x\<rparr>))
      else if HasPrefix k prefixBaggage then
        Inr (sc\<lparr>Baggage := AList.update (TrimPrefix k prefixBaggage) v (Baggage sc)\<rparr>)
      else Inr sc)"

text \<open>
  \<^verbatim>\<open>ForeachKey\<close> of a \<^verbatim>\<open>TextMapReader\<close>: the handler is called on the entries in
  turn, and the first error ends the iteration and is returned.
\<close>

fun ForeachKey ::
  "(string \<Rightarrow> string \<Rightarrow> 's \<Rightarrow> error + 's) \<Rightarrow> (string \<times> string) list \<Rightarrow> 's \<Rightarrow> error + 's" where
  "ForeachKey h [] s = Inr s"
| "ForeachKey h ((k, v) # kvs) s =
     (case h k v s of Inl e \<Rightarrow> Inl e | Inr s' \<Rightarrow> ForeachKey h kvs s')"

definition Extract :: "env \<Rightarrow> format \<Rightarrow> carrier \<Rightarrow> SpanContext \<times> error option" where
  "Extract e fmt c =
     (if fmt \<noteq> HTTPHeaders \<and> fmt \<noteq> TextMap then (NoopSpanContext, Some ErrUnsupportedFormat)
      else case c of
        OtherCarrier \<Rightarrow> (NoopSpanContext, Some ErrInvalidCarrier)
      | TextMapCarrier kvs \<Rightarrow>
          (case ForeachKey (extractKey (unicodeToLower e)) kvs zeroSpanContext of
             Inl err \<Rightarrow> (NoopSpanContext, Some err)
           | Inr sc \<Rightarrow>
               if TraceID sc = 0 \<and> SpanID sc = 0 then (NoopSpanContext, None)
               else
                 (case getLightstep e of
                    None \<Rightarrow> (SpanContextPtr sc, None)
                  | Some ls \<Rightarrow>
                      (case ls_Extract ls fmt c of
                         Inl err \<Rightarrow> (NoopSpanContext, Some err)
                       | Inr h \<Rightarrow> (SpanContextPtr (sc\<lparr>lightstep := h\<rparr>), None)))))"

subsection \<open>StartSpan\<close>

text \<open>
  The first fast path: a single option that is a reference to a
  \<^verbatim>\<open>noopSpanContext\<close>.
\<close>

fun singleNoopReference :: "StartSpanOption list \<Rightarrow> bool" where
  "singleNoopReference [SpanReference ty NoopSpanContext] = True"
| "singleNoopReference opts = False"

text \<open>
  \<^verbatim>\<open>Apply\<close> of the options, as opentracing-go defines it: a reference is appended,
  a start time replaces the start time, tags are assigned into the tag map (made when it
  is nil). \<^verbatim>\<open>recordableOption.Apply\<close> does nothing. (A version of the library that
  drops a reference with a nil context here changes nothing below: the loop over the
  references skips nil contexts itself.)
\<close>

fun Apply :: "StartSpanOption \<Rightarrow> StartSpanOptions \<Rightarrow> StartSpanOptions" where
  "Apply (SpanReference ty rc) sso = sso\<lparr>sso_References := sso_References sso @ [(ty, rc)]\<rparr>"
| "Apply (StartTime t) sso = sso\<lparr>sso_StartTime := t\<rparr>"
| "Apply (Tags m) sso =
     sso\<lparr>sso_Tags :=
       Some (fold (\<lambda>(k, v). AList.update k v) m
              (case sso_Tags sso of None \<Rightarrow> [] | Some ts \<Rightarrow> ts))\<rparr>"
| "Apply (Tag k v) sso =
     sso\<lparr>sso_Tags :=
       Some (AList.update k v (case sso_Tags sso of None \<Rightarrow> [] | Some ts \<Rightarrow> ts))\<rparr>"
| "Apply recordableOption sso = sso"

definition zeroStartSpanOptions :: StartSpanOptions where
  "zeroStartSpanOptions = \<lparr>sso_References = [], sso_StartTime = 0, sso_Tags = None\<rparr>"

text \<open>The loop over the options: the pair is \<^verbatim>\<open>sso\<close> and \<^verbatim>\<open>recordable\<close>.\<close>

definition applyOptions :: "StartSpanOption list \<Rightarrow> StartSpanOptions \<times> bool" where
  "applyOptions opts =
     fold (\<lambda>opt (sso, recordable). (Apply opt sso, recordable \<or> opt = recordableOption))
       opts (zeroStartSpanOptions, False)"

text \<open>
  The loop over \<^verbatim>\<open>sso.References\<close>. It stops at the first reference of type
  \<^verbatim>\<open>ChildOfRef\<close> or \<^verbatim>\<open>FollowsFromRef\<close> whose context is neither nil nor a
  \<^verbatim>\<open>noopSpanContext\<close>; the unchecked type assertion to \<^verbatim>\<open>*spanContext\<close> panics
  on a context of another tracer. \<open>findParent\<close> gives \<^verbatim>\<open>hasParent\<close> (the result
  is \<open>Some\<close>) with \<^verbatim>\<open>parentType\<close> and \<^verbatim>\<open>parentCtx\<close>.
\<close>

fun findParent ::
  "(SpanReferenceType \<times> SpanContext) list \<Rightarrow> panic + (SpanReferenceType \<times> spanContext) option" where
  "findParent [] = Inr None"
| "findParent ((ty, rc) # rs) =
     (if ty \<noteq> ChildOfRef \<and> ty \<noteq> FollowsFromRef then findParent rs
      else case rc of
        NilSpanContext \<Rightarrow> findParent rs
      | NoopSpanContext \<Rightarrow> findParent rs
      | ForeignSpanContext h \<Rightarrow> Inl InterfaceConversion
      | SpanContextPtr parentCtx \<Rightarrow> Inr (Some (ty, parentCtx)))"

text \<open>
  The rest of the loop body, which runs once, for the reference the loop stops at, and
  sets \<^verbatim>\<open>recordingGroup\<close> and \<^verbatim>\<open>recordingType\<close>. \<open>fresh\<close> is the address
  \<^verbatim>\<open>new(spanGroup)\<close> returns. Without a parent both variables keep their zero values.
\<close>

definition inheritRecording ::
  "spanGroupPtr \<Rightarrow> (SpanReferenceType \<times> spanContext) option \<Rightarrow>
   spanGroupPtr option \<times> RecordingType" where
  "inheritRecording fresh parent =
     (case parent of
        None \<Rightarrow> (None, NotRecording)
      | Some (parentType, parentCtx) \<Rightarrow>
          if recordingGroup parentCtx \<noteq> None
          then (recordingGroup parentCtx, recordingType parentCtx)
          else if mapIndex (Baggage parentCtx) Snowball \<noteq> []
          then (Some fresh, SnowballRecording)
          else (None, NotRecording))"

text \<open>
  \<^verbatim>\<open>lightstepExtractIDsCarrier\<close> and its \<^verbatim>\<open>Set\<close>, which panics where
  \<^verbatim>\<open>ParseUint\<close> fails; the keys are compared as they are.
\<close>

record lightstepExtractIDsCarrier =
  traceID :: uint64
  spanID :: uint64

definition lightstepExtractIDsCarrier_Set ::
  "string \<Rightarrow> string \<Rightarrow> lightstepExtractIDsCarrier \<Rightarrow> panic + lightstepExtractIDsCarrier" where
  "lightstepExtractIDsCarrier_Set key val l =
     (if key = fieldNameTraceID then
        (case ParseUint val of
           None \<Rightarrow> Inl (ParseUintFailed val)
         | Some x \<Rightarrow> Inr (l\<lparr>traceID := x\<rparr>))
      else if key = fieldNameSpanID then
        (case ParseUint val of
           None \<Rightarrow> Inl (ParseUintFailed val)
         | Some x \<Rightarrow> Inr (l\<lparr>spanID := x\<rparr>))
      else Inr l)"

fun setAll ::
  "(string \<times> string) list \<Rightarrow> lightstepExtractIDsCarrier \<Rightarrow> panic + lightstepExtractIDsCarrier" where
  "setAll [] l = Inr l"
| "setAll ((key, val) # kvs) l =
     (case lightstepExtractIDsCarrier_Set key val l of
        Inl p \<Rightarrow> Inl p
      | Inr l' \<Rightarrow> setAll kvs l')"

text \<open>
  \<^verbatim>\<open>getLightstepSpanIDs\<close>: the backend injects its context into a
  \<^verbatim>\<open>lightstepExtractIDsCarrier\<close>; an error and an ID that stayed 0 are panics.
\<close>

definition getLightstepSpanIDs :: "lightstepTracer \<Rightarrow> lsHandle \<Rightarrow> panic + (uint64 \<times> uint64)" where
  "getLightstepSpanIDs ls spanCtx =
     (case ls_Inject ls spanCtx of
        (sets, err) \<Rightarrow>
          (case setAll sets \<lparr>traceID = 0, spanID = 0\<rparr> of
             Inl p \<Rightarrow> Inl p
           | Inr c \<Rightarrow>
               (case err of
                  Some e \<Rightarrow> Inl (ErrorInjectingLightstepContext e)
                | None \<Rightarrow>
                    if traceID c = 0 \<or> spanID c = 0
                    then Inl (LightstepDidNotInjectIDs (traceID c) (spanID c))
                    else Inr (traceID c, spanID c))))"

text \<open>
  Modelled from the spec: \<^verbatim>\<open>span.enableRecording\<close>, which is not in tracer.go.
  "\<^verbatim>\<open>enableRecording(group, type)\<close> binds a span to a group and activates
  collection."
\<close>

definition enableRecording :: "spanGroupPtr \<Rightarrow> RecordingType \<Rightarrow> span \<Rightarrow> span" where
  "enableRecording g recType s = s\<lparr>mu_recordingGroup := Some g, mu_recordingType := recType\<rparr>"

text \<open>
  Modelled from the spec: \<^verbatim>\<open>span.SetTag\<close>, which is not in tracer.go. The span has
  "\<^verbatim>\<open>tags: mapping[string -> value]\<close>", and setting a tag assigns into it.
\<close>

definition SetTag :: "string \<Rightarrow> tagValue \<Rightarrow> span \<Rightarrow> span" where
  "SetTag k v s = s\<lparr>mu_tags := AList.update k v (mu_tags s)\<rparr>"

text \<open>The span literal of \<^verbatim>\<open>StartSpan\<close>, with the start time and the duration set.\<close>

definition newSpan :: "env \<Rightarrow> TracerPtr \<Rightarrow> string \<Rightarrow> StartSpanOptions \<Rightarrow> span" where
  "newSpan e t operationName sso =
     \<lparr>TraceID = 0, SpanID = 0, tracer = t, operation = operationName,
      startTime = (if sso_StartTime sso = 0 then timeNow e else sso_StartTime sso),
      mu_duration = - 1, s_lightstep = None, parentSpanID = 0, netTr = None,
      mu_Baggage = [], mu_tags = [], mu_recordingGroup = None,
      mu_recordingType = NotRecording\<rparr>"

text \<open>The options of the shadow span: the start time, the tags and the parent's shadow context.\<close>

definition lightstepOptions ::
  "StartSpanOptions \<Rightarrow> (SpanReferenceType \<times> spanContext) option \<Rightarrow> panic + StartSpanOption list" where
  "lightstepOptions sso parent =
     (let o1 = (if sso_StartTime sso \<noteq> 0 then [StartTime (sso_StartTime sso)] else []);
          o2 = (case sso_Tags sso of None \<Rightarrow> [] | Some ts \<Rightarrow> [Tags ts])
      in case parent of
           None \<Rightarrow> Inr (o1 @ o2)
         | Some (parentType, parentCtx) \<Rightarrow>
             (case lightstep parentCtx of
                None \<Rightarrow> Inl LightstepFromNonLightstep
              | Some lc \<Rightarrow> Inr (o1 @ o2 @ [SpanReference parentType (ForeignSpanContext lc)])))"

text \<open>
  The identity of the new span: from the shadow span when the backend is in use
  (\<open>lsTr\<close> is not nil), else random, with the parent's trace ID when there is a parent.
\<close>

definition assignIDs ::
  "env \<Rightarrow> lightstepTracer option \<Rightarrow> string \<Rightarrow> StartSpanOptions \<Rightarrow>
   (SpanReferenceType \<times> spanContext) option \<Rightarrow> span \<Rightarrow> panic + span" where
  "assignIDs e lsTr operationName sso parent s =
     (case lsTr of
        Some ls \<Rightarrow>
          (case lightstepOptions sso parent of
             Inl p \<Rightarrow> Inl p
           | Inr lsOpts \<Rightarrow>
               (let sh = ls_StartSpan ls operationName lsOpts in
                case getLightstepSpanIDs ls (ls_Context ls sh) of
                  Inl p \<Rightarrow> Inl p
                | Inr (tid, sid) \<Rightarrow>
                    (case parent of
                       None \<Rightarrow> Inr (s\<lparr>TraceID := tid, SpanID := sid, s_lightstep := Some sh\<rparr>)
                     | Some (parentType, parentCtx) \<Rightarrow>
                         if tid \<noteq> TraceID parentCtx
                         then Inl (TraceIDMismatch (TraceID parentCtx) tid)
                         else Inr (s\<lparr>TraceID := tid, SpanID := sid, s_lightstep := Some sh\<rparr>))))
      | None \<Rightarrow>
          Inr (s\<lparr>SpanID := rand1 e,
                 TraceID := (case parent of
                               None \<Rightarrow> rand2 e
                             | Some (parentType, parentCtx) \<Rightarrow> TraceID parentCtx)\<rparr>))"

text \<open>
  The rest of \<^verbatim>\<open>StartSpan\<close> after the identity: recording, the debug feed, the
  parent's span ID and baggage, the tags, and the baggage mirrored into the tags.
\<close>

definition copyParent :: "(SpanReferenceType \<times> spanContext) option \<Rightarrow> span \<Rightarrow> span" where
  "copyParent parent s =
     (case parent of
        None \<Rightarrow> s
      | Some (parentType, parentCtx) \<Rightarrow>
          (let s' = s\<lparr>parentSpanID := SpanID parentCtx\<rparr> in
           if length (Baggage parentCtx) > 0
           then s'\<lparr>mu_Baggage := fold (\<lambda>(k, v). AList.update k v) (Baggage parentCtx) []\<rparr>
           else s'))"

definition wireSpan ::
  "bool \<Rightarrow> lightstepTracer option \<Rightarrow> string \<Rightarrow> StartSpanOptions \<Rightarrow>
   (SpanReferenceType \<times> spanContext) option \<Rightarrow> spanGroupPtr option \<Rightarrow> RecordingType \<Rightarrow>
   span \<Rightarrow> span" where
  "wireSpan netTrace lsTr operationName sso parent recGroup recType s =
     (let s1 = (case recGroup of None \<Rightarrow> s | Some g \<Rightarrow> enableRecording g recType s);
          s2 = (if netTrace
                then s1\<lparr>netTr := Some \<lparr>family = ''tracing'', title = operationName,
                                         maxEvents = maxLogsPerSpan\<rparr>\<rparr>
                else s1);
          s3 = copyParent parent s2;
          s4 = fold (\<lambda>(k, v). SetTag k v)
                 (case sso_Tags sso of None \<Rightarrow> [] | Some ts \<Rightarrow> ts) s3
      in if netTrace \<or> lsTr \<noteq> None
         then fold (\<lambda>(k, v). SetTag k (StringTag v)) (mu_Baggage s4) s4
         else s4)"

text \<open>
  \<^verbatim>\<open>Tracer.StartSpan\<close> on the Tracer at address \<open>t\<close>: a panic, or the span
  returned.
\<close>

definition StartSpan :: "env \<Rightarrow> TracerPtr \<Rightarrow> string \<Rightarrow> StartSpanOption list \<Rightarrow> panic + Span" where
  "StartSpan e t operationName opts =
     (if singleNoopReference opts then Inr (NoopSpanPtr t)
      else if opts = [] \<and> \<not> enableNetTrace e \<and> getLightstep e = None then Inr (NoopSpanPtr t)
      else
        (case applyOptions opts of
           (sso, recordable) \<Rightarrow>
             (case findParent (sso_References sso) of
                Inl p \<Rightarrow> Inl p
              | Inr parent \<Rightarrow>
                  (case inheritRecording (newSpanGroup e) parent of
                     (recGroup, recType) \<Rightarrow>
                       (let lsTr = (case parent of
                                      None \<Rightarrow> getLightstep e
                                    | Some (parentType, parentCtx) \<Rightarrow>
                                        if lightstep parentCtx = None then None
                                        else getLightstep e)
                        in if \<not> recordable \<and> recGroup = None \<and> lsTr = None \<and> \<not> enableNetTrace e
                           then Inr (NoopSpanPtr t)
                           else
                             (case assignIDs e lsTr operationName sso parent
                                     (newSpan e t operationName sso) of
                                Inl p \<Rightarrow> Inl p
                              | Inr s \<Rightarrow>
                                  Inr (SpanPtr (wireSpan (enableNetTrace e) lsTr operationName
                                                  sso parent recGroup recType s))))))))"

subsection \<open>Example environments\<close>

text \<open>
  \<open>quietEnv\<close>: the debug feed is off and no backend is configured. \<open>shadowEnv\<close>: a
  backend is configured; every shadow span it starts reports trace ID 0xa and span ID 0xb.
\<close>

definition quietEnv :: env where
  "quietEnv =
     \<lparr>enableNetTrace = False, getLightstep = None, rand1 = 5, rand2 = 6, timeNow = 100,
      newSpanGroup = 0, unicodeToLower = (\<lambda>s. s)\<rparr>"

definition exampleLightstep :: lightstepTracer where
  "exampleLightstep =
     \<lparr>ls_StartSpan = (\<lambda>name opts. 9), ls_Context = (\<lambda>h. h + 1),
      ls_Inject = (\<lambda>h. ([(''ot-tracer-traceid'', ''a''), (''ot-tracer-spanid'', ''b'')], None)),
      ls_Extract = (\<lambda>fmt c. Inr (Some 3))\<rparr>"

definition shadowEnv :: env where
  "shadowEnv = quietEnv\<lparr>getLightstep := Some exampleLightstep\<rparr>"

section \<open>Properties\<close>

subsection \<open>Hexadecimal numbers\<close>

declare formatBits.simps [simp del]

lemma digit_cases:
  "d < (16::nat) \<Longrightarrow> d = 0 \<or> d = 1 \<or> d = 2 \<or> d = 3 \<or> d = 4 \<or> d = 5 \<or> d = 6 \<or> d = 7 \<or>
     d = 8 \<or> d = 9 \<or> d = 10 \<or> d = 11 \<or> d = 12 \<or> d = 13 \<or> d = 14 \<or> d = 15"
  by arith

lemma digitVal_digits: "d < 16 \<Longrightarrow> digitVal (digits ! d) = Some d"
  by (drule digit_cases) (elim disjE; simp add: digitVal_def digits_def)

lemma parseLoop_digit:
  assumes "d < 16" and "m * 16 + d < 2 ^ 64"
  shows "parseLoop m (digits ! d # rest) = parseLoop (m * 16 + d) rest"
proof -
  from assms have "m < 2 ^ 64 div 16" by simp
  with assms show ?thesis by (simp add: digitVal_digits)
qed

lemma mul16_bound: "(a::nat) * 16 + d < b \<Longrightarrow> a < b"
  by linarith

lemma parseLoop_formatBits:
  "n * 16 ^ length (formatBits u) + u < 2 ^ 64 \<Longrightarrow>
   parseLoop n (formatBits u @ rest) = parseLoop (n * 16 ^ length (formatBits u) + u) rest"
proof (induction u arbitrary: rest rule: formatBits.induct)
  case (1 u)
  show ?case
  proof (cases "u \<ge> 16")
    case False
    then have fb: "formatBits u = [digits ! u]" by (subst formatBits.simps) simp
    from False 1(2) show ?thesis
      by (simp add: fb parseLoop_digit del: parseLoop.simps)
  next
    case True
    let ?q = "u div 16" and ?d = "u mod 16"
    have fb: "formatBits u = formatBits ?q @ [digits ! ?d]"
      using True by (subst formatBits.simps) simp
    let ?m = "n * 16 ^ length (formatBits ?q) + ?q"
    have len: "length (formatBits u) = Suc (length (formatBits ?q))"
      by (simp add: fb)
    have "?m * 16 + ?d = n * 16 ^ Suc (length (formatBits ?q)) + (?q * 16 + ?d)"
      by (simp add: algebra_simps)
    also have "?q * 16 + ?d = u" by simp
    finally have eq: "?m * 16 + ?d = n * 16 ^ length (formatBits u) + u"
      by (simp only: len)
    from 1(2) have bound: "?m * 16 + ?d < 2 ^ 64" by (simp only: eq)
    then have "?m < 2 ^ 64" by (rule mul16_bound)
    with 1(1) [OF True, of "digits ! ?d # rest"]
    have "parseLoop n (formatBits u @ rest) = parseLoop ?m (digits ! ?d # rest)"
      by (simp add: fb)
    also have "\<dots> = parseLoop (?m * 16 + ?d) rest"
      using bound by (intro parseLoop_digit) simp_all
    finally show ?thesis by (simp only: eq)
  qed
qed

lemma formatBits_nonempty: "formatBits u \<noteq> []"
  by (subst formatBits.simps) simp

lemma ParseUint_FormatUint: "ParseUint (FormatUint x) = Some x"
proof -
  have "unat x < 2 ^ 64" using unsigned_less [of x] by simp
  then have "parseLoop 0 (formatBits (unat x) @ []) = Some (unat x)"
    by (subst parseLoop_formatBits) simp_all
  then show ?thesis
    by (simp add: ParseUint_def FormatUint_def formatBits_nonempty)
qed

subsection \<open>The keys of the wire format\<close>

lemma fieldNames_distinct:
  "fieldNameTraceID \<noteq> fieldNameSpanID"
  "\<not> HasPrefix fieldNameTraceID prefixBaggage"
  "\<not> HasPrefix fieldNameSpanID prefixBaggage"
  "\<not> HasPrefix fieldNameSampled prefixBaggage"
  "fieldNameSampled \<noteq> fieldNameTraceID"
  "fieldNameSampled \<noteq> fieldNameSpanID"
  by (simp_all add: fieldNameTraceID_def fieldNameSpanID_def fieldNameSampled_def
        prefixTracerState_def prefixBaggage_def HasPrefix_def)

lemma baggage_key_neq:
  "prefixBaggage @ b \<noteq> fieldNameTraceID"
  "prefixBaggage @ b \<noteq> fieldNameSpanID"
  "prefixBaggage @ b \<noteq> fieldNameSampled"
  by (simp_all add: fieldNameTraceID_def fieldNameSpanID_def fieldNameSampled_def
        prefixTracerState_def prefixBaggage_def)

lemma HasPrefix_append: "HasPrefix (p @ s) p"
  by (simp add: HasPrefix_def)

lemma HasPrefix_iff: "HasPrefix s p \<longleftrightarrow> (\<exists>r. s = p @ r)"
  by (auto simp: HasPrefix_def) (metis append_take_drop_id)

lemma TrimPrefix_append: "TrimPrefix (p @ s) p = s"
  by (simp add: TrimPrefix_def HasPrefix_def)

lemma ToLower_fieldNames:
  "ToLower u fieldNameTraceID = fieldNameTraceID"
  "ToLower u fieldNameSpanID = fieldNameSpanID"
  "ToLower u fieldNameSampled = fieldNameSampled"
  by (simp_all add: ToLower_def isASCII_def lowerByte_def fieldNameTraceID_def
        fieldNameSpanID_def fieldNameSampled_def prefixTracerState_def)

text \<open>
  A baggage key of ASCII bytes with no upper-case letter is one that lower-casing leaves as
  it is, with the prefix in front.
\<close>

lemma ToLower_lower_ascii:
  assumes "isASCII k"
      and "list_all (\<lambda>c. \<not> (65 \<le> (of_char c :: nat) \<and> (of_char c :: nat) \<le> 90)) k"
  shows "ToLower u (prefixBaggage @ k) = prefixBaggage @ k"
proof -
  have "isASCII (prefixBaggage @ k)"
    using assms(1) by (simp add: isASCII_def prefixBaggage_def)
  moreover have "map lowerByte prefixBaggage = prefixBaggage"
    by (simp add: lowerByte_def prefixBaggage_def)
  moreover have "map lowerByte k = k"
    using assms(2) by (induction k) (auto simp: lowerByte_def)
  ultimately show ?thesis by (simp add: ToLower_def)
qed

subsection \<open>The handler of Extract\<close>

lemma extractKey_TraceID:
  "ToLower u k = fieldNameTraceID \<Longrightarrow>
   extractKey u k v sc =
     (case ParseUint v of None \<Rightarrow> Inl ErrSpanContextCorrupted | Some x \<Rightarrow> Inr (sc\<lparr>TraceID := x\<rparr>))"
  by (simp add: extractKey_def)

lemma extractKey_SpanID:
  "ToLower u k = fieldNameSpanID \<Longrightarrow>
   extractKey u k v sc =
     (case ParseUint v of None \<Rightarrow> Inl ErrSpanContextCorrupted | Some x \<Rightarrow> Inr (sc\<lparr>SpanID := x\<rparr>))"
  using fieldNames_distinct(1) by (simp add: extractKey_def)

lemma extractKey_Baggage:
  "HasPrefix (ToLower u k) prefixBaggage \<Longrightarrow>
   extractKey u k v sc =
     Inr (sc\<lparr>Baggage := AList.update (drop (length prefixBaggage) (ToLower u k)) v (Baggage sc)\<rparr>)"
  using fieldNames_distinct(2,3) by (auto simp: extractKey_def Let_def TrimPrefix_def)

lemma extractKey_other:
  "ToLower u k \<noteq> fieldNameTraceID \<Longrightarrow> ToLower u k \<noteq> fieldNameSpanID \<Longrightarrow>
   \<not> HasPrefix (ToLower u k) prefixBaggage \<Longrightarrow> extractKey u k v sc = Inr sc"
  by (simp add: extractKey_def)

lemma extractKey_lower:
  "ToLower u k = ToLower u k' \<Longrightarrow> extractKey u k v sc = extractKey u k' v sc"
  by (simp add: extractKey_def)

lemma extractKey_error: "extractKey u k v sc = Inl err \<Longrightarrow> err = ErrSpanContextCorrupted"
  by (auto simp: extractKey_def Let_def split: if_splits option.splits)

lemma extractKey_frame:
  "extractKey u k v sc = Inr s1 \<Longrightarrow>
   lightstep s1 = lightstep sc \<and> recordingGroup s1 = recordingGroup sc \<and>
   recordingType s1 = recordingType sc"
  by (auto simp: extractKey_def Let_def split: if_splits option.splits)

lemma extractKey_TraceID_miss:
  "extractKey u k v sc = Inr s1 \<Longrightarrow> ToLower u k \<noteq> fieldNameTraceID \<Longrightarrow> TraceID s1 = TraceID sc"
  by (auto simp: extractKey_def Let_def split: if_splits option.splits)

lemma extractKey_TraceID_hit:
  "extractKey u k v sc = Inr s1 \<Longrightarrow> ToLower u k = fieldNameTraceID \<Longrightarrow> ParseUint v = Some (TraceID s1)"
  by (auto simp: extractKey_def Let_def split: if_splits option.splits)

lemma extractKey_SpanID_miss:
  "extractKey u k v sc = Inr s1 \<Longrightarrow> ToLower u k \<noteq> fieldNameSpanID \<Longrightarrow> SpanID s1 = SpanID sc"
  by (auto simp: extractKey_def Let_def split: if_splits option.splits)

lemma extractKey_SpanID_hit:
  "extractKey u k v sc = Inr s1 \<Longrightarrow> ToLower u k = fieldNameSpanID \<Longrightarrow> ParseUint v = Some (SpanID s1)"
  using fieldNames_distinct(1)
  by (auto simp: extractKey_def Let_def split: if_splits option.splits)

lemma extractKey_Baggage_map:
  "extractKey u k v sc = Inr s1 \<Longrightarrow>
   map_of (Baggage s1) =
     (if HasPrefix (ToLower u k) prefixBaggage
      then (map_of (Baggage sc))(drop (length prefixBaggage) (ToLower u k) \<mapsto> v)
      else map_of (Baggage sc))"
  using fieldNames_distinct(2,3)
  by (auto simp: extractKey_def Let_def TrimPrefix_def update_conv' split: if_splits option.splits)

lemma extractKey_Baggage_keys:
  "extractKey u k v sc = Inr s1 \<Longrightarrow> fst ` set (Baggage sc) \<subseteq> fst ` set (Baggage s1)"
  using extractKey_Baggage_map [of u k v sc s1]
  by (auto simp: dom_map_of_conv_image_fst [symmetric] split: if_splits)

lemma extractKey_succeeds:
  "(ToLower u k = fieldNameTraceID \<or> ToLower u k = fieldNameSpanID \<longrightarrow> ParseUint v \<noteq> None) \<Longrightarrow>
   \<exists>s1. extractKey u k v sc = Inr s1"
  by (auto simp: extractKey_def Let_def split: if_splits option.splits)

subsection \<open>The iteration over the carrier\<close>

lemma ForeachKey_error:
  "ForeachKey (extractKey u) kvs sc = Inl err \<Longrightarrow> err = ErrSpanContextCorrupted"
  by (induction kvs arbitrary: sc) (auto split: sum.splits dest: extractKey_error)

lemma ForeachKey_succeeds:
  "\<forall>(k, v) \<in> set kvs.
     ToLower u k = fieldNameTraceID \<or> ToLower u k = fieldNameSpanID \<longrightarrow> ParseUint v \<noteq> None \<Longrightarrow>
   \<exists>sc'. ForeachKey (extractKey u) kvs sc = Inr sc'"
proof (induction kvs arbitrary: sc)
  case Nil
  show ?case by simp
next
  case (Cons kv kvs)
  obtain k v where kv: "kv = (k, v)" by (cases kv)
  with Cons.prems obtain s1 where "extractKey u k v sc = Inr s1"
    using extractKey_succeeds [of u k v sc] by auto
  moreover from Cons obtain sc' where "ForeachKey (extractKey u) kvs s1 = Inr sc'"
    by fastforce
  ultimately show ?case by (simp add: kv)
qed

lemma ForeachKey_frame:
  "ForeachKey (extractKey u) kvs sc = Inr sc' \<Longrightarrow>
   lightstep sc' = lightstep sc \<and> recordingGroup sc' = recordingGroup sc \<and>
   recordingType sc' = recordingType sc"
proof (induction kvs arbitrary: sc)
  case Nil
  then show ?case by simp
next
  case (Cons kv kvs)
  obtain k v where kv: "kv = (k, v)" by (cases kv)
  from Cons.prems obtain s1 where s1: "extractKey u k v sc = Inr s1"
    and rest: "ForeachKey (extractKey u) kvs s1 = Inr sc'"
    by (auto simp: kv split: sum.splits)
  from Cons.IH [OF rest] extractKey_frame [OF s1] show ?case by simp
qed

lemma ForeachKey_lower:
  "map (\<lambda>(k, v). (ToLower u k, v)) kvs = map (\<lambda>(k, v). (ToLower u k, v)) kvs' \<Longrightarrow>
   ForeachKey (extractKey u) kvs sc = ForeachKey (extractKey u) kvs' sc"
proof (induction kvs arbitrary: kvs' sc)
  case Nil
  then show ?case by simp
next
  case (Cons kv kvs)
  then obtain kv' rest where kvs': "kvs' = kv' # rest" by (cases kvs') auto
  obtain k v where kv: "kv = (k, v)" by (cases kv)
  obtain k' v' where kv': "kv' = (k', v')" by (cases kv')
  from Cons.prems have hd: "ToLower u k = ToLower u k'" "v = v'"
    and tl: "map (\<lambda>(k, v). (ToLower u k, v)) kvs = map (\<lambda>(k, v). (ToLower u k, v)) rest"
    by (simp_all add: kvs' kv kv')
  from extractKey_lower [OF hd(1)] Cons.IH [OF tl] show ?case
    by (simp add: kvs' kv kv' hd(2) cong: sum.case_cong)
qed

lemma ForeachKey_corrupted:
  assumes "(k, v) \<in> set kvs"
      and "ToLower u k = fieldNameTraceID \<or> ToLower u k = fieldNameSpanID"
      and "ParseUint v = None"
  shows "ForeachKey (extractKey u) kvs sc = Inl ErrSpanContextCorrupted"
proof -
  have bad: "extractKey u k v s = Inl ErrSpanContextCorrupted" for s
    using assms(2,3) fieldNames_distinct(1) by (auto simp: extractKey_def)
  from assms(1) have "\<exists>err. ForeachKey (extractKey u) kvs sc = Inl err"
  proof (induction kvs arbitrary: sc)
    case Nil
    then show ?case by simp
  next
    case (Cons kv kvs)
    obtain k1 v1 where kv: "kv = (k1, v1)" by (cases kv)
    show ?case
    proof (cases "extractKey u k1 v1 sc")
      case (Inl err)
      then show ?thesis by (simp add: kv)
    next
      case (Inr s1)
      with bad [of sc] have "(k, v) \<noteq> (k1, v1)" by auto
      with Cons.prems kv have "(k, v) \<in> set kvs" by auto
      from Cons.IH [OF this, of s1] Inr show ?thesis by (simp add: kv)
    qed
  qed
  with ForeachKey_error show ?thesis by blast
qed

lemma ForeachKey_filter:
  "ForeachKey (extractKey u)
     (filter (\<lambda>(k, v). ToLower u k = fieldNameTraceID \<or> ToLower u k = fieldNameSpanID \<or>
                HasPrefix (ToLower u k) prefixBaggage) kvs) sc =
   ForeachKey (extractKey u) kvs sc"
proof (induction kvs arbitrary: sc)
  case Nil
  show ?case by simp
next
  case (Cons kv kvs)
  obtain k v where kv: "kv = (k, v)" by (cases kv)
  show ?case
    by (auto simp: kv Cons.IH extractKey_other cong: sum.case_cong)
qed

lemma ForeachKey_no_ids:
  "\<forall>(k, v) \<in> set kvs. ToLower u k \<noteq> fieldNameTraceID \<and> ToLower u k \<noteq> fieldNameSpanID \<Longrightarrow>
   \<exists>sc'. ForeachKey (extractKey u) kvs sc = Inr sc' \<and> TraceID sc' = TraceID sc \<and>
      SpanID sc' = SpanID sc"
proof (induction kvs arbitrary: sc)
  case Nil
  show ?case by simp
next
  case (Cons kv kvs)
  obtain k v where kv: "kv = (k, v)" by (cases kv)
  from Cons.prems kv have k: "ToLower u k \<noteq> fieldNameTraceID" "ToLower u k \<noteq> fieldNameSpanID"
    and rest: "\<forall>(k, v) \<in> set kvs. ToLower u k \<noteq> fieldNameTraceID \<and> ToLower u k \<noteq> fieldNameSpanID"
    by auto
  from k obtain s1 where s1: "extractKey u k v sc = Inr s1"
    using extractKey_succeeds [of u k v sc] by auto
  from extractKey_TraceID_miss [OF s1 k(1)] extractKey_SpanID_miss [OF s1 k(2)]
    Cons.IH [OF rest, of s1] s1
  show ?case by (auto simp: kv)
qed

lemma ForeachKey_Baggage_keys:
  "ForeachKey (extractKey u) kvs sc = Inr sc' \<Longrightarrow> fst ` set (Baggage sc) \<subseteq> fst ` set (Baggage sc')"
proof (induction kvs arbitrary: sc)
  case Nil
  then show ?case by simp
next
  case (Cons kv kvs)
  obtain k v where kv: "kv = (k, v)" by (cases kv)
  from Cons.prems obtain s1 where s1: "extractKey u k v sc = Inr s1"
    and rest: "ForeachKey (extractKey u) kvs s1 = Inr sc'"
    by (auto simp: kv split: sum.splits)
  from extractKey_Baggage_keys [OF s1] Cons.IH [OF rest] show ?case by blast
qed

lemma ForeachKey_Baggage_entry:
  assumes "ForeachKey (extractKey u) kvs sc = Inr sc'" and "(k, v) \<in> set kvs"
      and "HasPrefix (ToLower u k) prefixBaggage"
  shows "drop (length prefixBaggage) (ToLower u k) \<in> fst ` set (Baggage sc')"
  using assms(1,2)
proof (induction kvs arbitrary: sc)
  case Nil
  then show ?case by simp
next
  case (Cons kv kvs)
  obtain k1 v1 where kv: "kv = (k1, v1)" by (cases kv)
  from Cons.prems obtain s1 where s1: "extractKey u k1 v1 sc = Inr s1"
    and rest: "ForeachKey (extractKey u) kvs s1 = Inr sc'"
    by (auto simp: kv split: sum.splits)
  show ?case
  proof (cases "(k, v) \<in> set kvs")
    case True
    from Cons.IH [OF rest True] show ?thesis .
  next
    case False
    with Cons.prems kv have eq: "k1 = k" "v1 = v" by auto
    from extractKey_Baggage_map [OF s1] assms(3)
    have "map_of (Baggage s1) (drop (length prefixBaggage) (ToLower u k)) = Some v"
      by (simp add: eq)
    then have "drop (length prefixBaggage) (ToLower u k) \<in> fst ` set (Baggage s1)"
      by (metis domI dom_map_of_conv_image_fst)
    with ForeachKey_Baggage_keys [OF rest] show ?thesis by blast
  qed
qed

text \<open>The iteration over a carrier whose keys are distinct and lower case.\<close>

lemma ForeachKey_TraceID:
  assumes "ForeachKey (extractKey u) kvs sc = Inr sc'"
      and "distinct (map fst kvs)" and "\<forall>k \<in> fst ` set kvs. ToLower u k = k"
  shows "map_of kvs fieldNameTraceID = None \<and> TraceID sc' = TraceID sc \<or>
         (\<exists>v. map_of kvs fieldNameTraceID = Some v \<and> ParseUint v = Some (TraceID sc'))"
  using assms
proof (induction kvs arbitrary: sc)
  case Nil
  then show ?case by simp
next
  case (Cons kv kvs)
  obtain k v where kv: "kv = (k, v)" by (cases kv)
  from Cons.prems obtain s1 where s1: "extractKey u k v sc = Inr s1"
    and rest: "ForeachKey (extractKey u) kvs s1 = Inr sc'"
    by (auto simp: kv split: sum.splits)
  from Cons.prems kv have low: "ToLower u k = k" and none: "map_of kvs k = None"
    and dist: "distinct (map fst kvs)" and lows: "\<forall>k \<in> fst ` set kvs. ToLower u k = k"
    by (auto simp: map_of_eq_None_iff)
  note IH = Cons.IH [OF rest dist lows]
  show ?case
  proof (cases "k = fieldNameTraceID")
    case True
    with IH none have "TraceID sc' = TraceID s1" by auto
    with extractKey_TraceID_hit [OF s1] low True show ?thesis by (simp add: kv)
  next
    case False
    with extractKey_TraceID_miss [OF s1] low have "TraceID s1 = TraceID sc" by simp
    with IH False show ?thesis by (simp add: kv)
  qed
qed

lemma ForeachKey_SpanID:
  assumes "ForeachKey (extractKey u) kvs sc = Inr sc'"
      and "distinct (map fst kvs)" and "\<forall>k \<in> fst ` set kvs. ToLower u k = k"
  shows "map_of kvs fieldNameSpanID = None \<and> SpanID sc' = SpanID sc \<or>
         (\<exists>v. map_of kvs fieldNameSpanID = Some v \<and> ParseUint v = Some (SpanID sc'))"
  using assms
proof (induction kvs arbitrary: sc)
  case Nil
  then show ?case by simp
next
  case (Cons kv kvs)
  obtain k v where kv: "kv = (k, v)" by (cases kv)
  from Cons.prems obtain s1 where s1: "extractKey u k v sc = Inr s1"
    and rest: "ForeachKey (extractKey u) kvs s1 = Inr sc'"
    by (auto simp: kv split: sum.splits)
  from Cons.prems kv have low: "ToLower u k = k" and none: "map_of kvs k = None"
    and dist: "distinct (map fst kvs)" and lows: "\<forall>k \<in> fst ` set kvs. ToLower u k = k"
    by (auto simp: map_of_eq_None_iff)
  note IH = Cons.IH [OF rest dist lows]
  show ?case
  proof (cases "k = fieldNameSpanID")
    case True
    with IH none have "SpanID sc' = SpanID s1" by auto
    with extractKey_SpanID_hit [OF s1] low True show ?thesis by (simp add: kv)
  next
    case False
    with extractKey_SpanID_miss [OF s1] low have "SpanID s1 = SpanID sc" by simp
    with IH False show ?thesis by (simp add: kv)
  qed
qed

lemma ForeachKey_Baggage:
  assumes "ForeachKey (extractKey u) kvs sc = Inr sc'"
      and "distinct (map fst kvs)" and "\<forall>k \<in> fst ` set kvs. ToLower u k = k"
  shows "map_of (Baggage sc') b =
           (case map_of kvs (prefixBaggage @ b) of
              None \<Rightarrow> map_of (Baggage sc) b
            | Some v \<Rightarrow> Some v)"
  using assms
proof (induction kvs arbitrary: sc)
  case Nil
  then show ?case by simp
next
  case (Cons kv kvs)
  obtain k v where kv: "kv = (k, v)" by (cases kv)
  from Cons.prems obtain s1 where s1: "extractKey u k v sc = Inr s1"
    and rest: "ForeachKey (extractKey u) kvs s1 = Inr sc'"
    by (auto simp: kv split: sum.splits)
  from Cons.prems kv have low: "ToLower u k = k" and none: "map_of kvs k = None"
    and dist: "distinct (map fst kvs)" and lows: "\<forall>k \<in> fst ` set kvs. ToLower u k = k"
    by (auto simp: map_of_eq_None_iff)
  note IH = Cons.IH [OF rest dist lows]
  note bm = extractKey_Baggage_map [OF s1, unfolded low]
  show ?case
  proof (cases "k = prefixBaggage @ b")
    case True
    with bm have "map_of (Baggage s1) b = Some v" by (simp add: HasPrefix_append)
    with IH none True show ?thesis by (simp add: kv)
  next
    case False
    have "map_of (Baggage s1) b = map_of (Baggage sc) b"
    proof (cases "HasPrefix k prefixBaggage")
      case True
      then obtain r where r: "k = prefixBaggage @ r" by (auto simp: HasPrefix_iff)
      with False have "r \<noteq> b" by auto
      with bm r show ?thesis by (simp add: HasPrefix_append)
    next
      case False
      with bm show ?thesis by simp
    qed
    with IH False show ?thesis by (simp add: kv cong: option.case_cong)
  qed
qed

subsection \<open>The carrier Inject fills\<close>

lemma fold_Set_other:
  "\<not> HasPrefix x prefixBaggage \<Longrightarrow>
   map_of (fold (\<lambda>(k, v). TextMapCarrier_Set (prefixBaggage @ k) v) B m0) x = map_of m0 x"
proof (induction B arbitrary: m0)
  case Nil
  show ?case by simp
next
  case (Cons kv B)
  obtain k v where kv: "kv = (k, v)" by (cases kv)
  from Cons.prems have "x \<noteq> prefixBaggage @ k" by (auto simp: HasPrefix_iff)
  with Cons show ?case by (simp add: kv TextMapCarrier_Set_def update_conv')
qed

lemma fold_Set_baggage:
  "distinct (map fst B) \<Longrightarrow>
   map_of (fold (\<lambda>(k, v). TextMapCarrier_Set (prefixBaggage @ k) v) B m0) (prefixBaggage @ b) =
     (case map_of B b of None \<Rightarrow> map_of m0 (prefixBaggage @ b) | Some v \<Rightarrow> Some v)"
proof (induction B arbitrary: m0)
  case Nil
  show ?case by simp
next
  case (Cons kv B)
  obtain k v where kv: "kv = (k, v)" by (cases kv)
  from Cons.prems kv have dist: "distinct (map fst B)" and none: "map_of B k = None"
    by (auto simp: map_of_eq_None_iff)
  show ?case
  proof (cases "k = b")
    case True
    with none Cons.IH [OF dist] show ?thesis
      by (simp add: kv TextMapCarrier_Set_def update_conv')
  next
    case False
    with Cons.IH [OF dist] show ?thesis
      by (simp add: kv TextMapCarrier_Set_def update_conv' cong: option.case_cong)
  qed
qed

lemma fold_Set_dom:
  "fst ` set (fold (\<lambda>(k, v). TextMapCarrier_Set (prefixBaggage @ k) v) B m0) =
     fst ` set m0 \<union> (\<lambda>k. prefixBaggage @ k) ` fst ` set B"
proof (induction B arbitrary: m0)
  case Nil
  show ?case by simp
next
  case (Cons kv B)
  obtain k v where kv: "kv = (k, v)" by (cases kv)
  have "fst ` set (AList.update (prefixBaggage @ k) v m0) = insert (prefixBaggage @ k) (fst ` set m0)"
    using dom_update [of "prefixBaggage @ k" v m0] by (simp add: dom_map_of_conv_image_fst)
  with Cons show ?case by (auto simp: kv TextMapCarrier_Set_def)
qed

subsection \<open>Evaluation on concrete inputs\<close>

lemmas eval_simps =
  Inject_def Extract_def extractKey_def TextMapCarrier_Set_def FormatUint_def ParseUint_def
  digitVal_def digits_def ToLower_def isASCII_def lowerByte_def HasPrefix_def TrimPrefix_def
  fieldNameTraceID_def fieldNameSpanID_def fieldNameSampled_def prefixTracerState_def
  prefixBaggage_def zeroSpanContext_def quietEnv_def formatBits.simps char_of_eq_iff

lemmas StartSpan_eval =
  StartSpan_def applyOptions_def zeroStartSpanOptions_def inheritRecording_def mapIndex_def
  Snowball_def assignIDs_def newSpan_def wireSpan_def copyParent_def enableRecording_def
  SetTag_def lightstepOptions_def getLightstepSpanIDs_def lightstepExtractIDsCarrier_Set_def
  maxLogsPerSpan_def quietEnv_def shadowEnv_def exampleLightstep_def Let_def
  ParseUint_def digitVal_def fieldNameTraceID_def fieldNameSpanID_def prefixTracerState_def

subsection \<open>Inject\<close>

text \<open>
  C10. Inject tests for a no-op context before it looks at the format and the carrier:
  with a no-op span context it returns nil and leaves the carrier as it was, whatever the
  format and the carrier are, an unsupported format and a carrier that accepts no writes
  included.
\<close>

theorem Inject_noop_first:
  "Inject NoopSpanContext fmt c = (None, c)"
  by (simp add: Inject_def)

theorem Inject_noop_first_witness:
  "Inject NoopSpanContext Binary OtherCarrier = (None, OtherCarrier) \<and>
   Inject NoopSpanContext OtherFormat (TextMapCarrier [(''a'', ''b'')]) =
     (None, TextMapCarrier [(''a'', ''b'')])"
  using Inject_noop_first [of Binary OtherCarrier]
        Inject_noop_first [of OtherFormat "TextMapCarrier [(''a'', ''b'')]"]
  by simp

text \<open>
  C8. For a context that is not the no-op context, Inject returns, in this order of
  precedence, \<^verbatim>\<open>ErrUnsupportedFormat\<close> when the format is neither
  \<^verbatim>\<open>HTTPHeaders\<close> nor \<^verbatim>\<open>TextMap\<close>, \<^verbatim>\<open>ErrInvalidCarrier\<close> when the carrier is
  no \<^verbatim>\<open>TextMapWriter\<close>, and \<^verbatim>\<open>ErrInvalidSpanContext\<close> when the context is no
  \<^verbatim>\<open>*spanContext\<close>; in each case the carrier is left as it was.
\<close>

theorem Inject_errors:
  assumes "osc \<noteq> NoopSpanContext"
  shows "(fmt \<noteq> HTTPHeaders \<and> fmt \<noteq> TextMap \<longrightarrow> Inject osc fmt c = (Some ErrUnsupportedFormat, c)) \<and>
   ((fmt = HTTPHeaders \<or> fmt = TextMap) \<longrightarrow>
      Inject osc fmt OtherCarrier = (Some ErrInvalidCarrier, OtherCarrier)) \<and>
   ((fmt = HTTPHeaders \<or> fmt = TextMap) \<and> (\<forall>sc. osc \<noteq> SpanContextPtr sc) \<longrightarrow>
      Inject osc fmt (TextMapCarrier m) = (Some ErrInvalidSpanContext, TextMapCarrier m))"
  using assms by (cases osc) (auto simp: Inject_def)

theorem Inject_errors_witness:
  "Inject NilSpanContext Binary (TextMapCarrier [(''a'', ''b'')]) = (Some ErrUnsupportedFormat, TextMapCarrier [(''a'', ''b'')]) \<and>
   Inject NilSpanContext TextMap OtherCarrier = (Some ErrInvalidCarrier, OtherCarrier) \<and>
   Inject (ForeignSpanContext 7) HTTPHeaders (TextMapCarrier [(''a'', ''b'')]) = (Some ErrInvalidSpanContext, TextMapCarrier [(''a'', ''b'')])"
  using Inject_errors [of NilSpanContext Binary "TextMapCarrier [(''a'', ''b'')]"]
        Inject_errors [of NilSpanContext TextMap]
        Inject_errors [of "ForeignSpanContext 7" HTTPHeaders _ "[(''a'', ''b'')]"]
  by simp

subsection \<open>Extract\<close>

text \<open>
  C9. Extract always returns a usable context: for every environment, format and carrier
  the context returned is never nil and never a context of another tracer, so it is the
  no-op context or a \<^verbatim>\<open>*spanContext\<close>; whenever an error is returned, it is the no-op
  context.
\<close>

theorem Extract_always_context:
  "fst (Extract e fmt c) \<noteq> NilSpanContext \<and>
   (\<forall>h. fst (Extract e fmt c) \<noteq> ForeignSpanContext h) \<and>
   (snd (Extract e fmt c) \<noteq> None \<longrightarrow> fst (Extract e fmt c) = NoopSpanContext)"
  by (auto simp: Extract_def split: carrier.splits sum.splits option.splits)

theorem Extract_always_context_witness:
  "Extract quietEnv TextMap (TextMapCarrier [(''ot-tracer-traceid'', ''zz'')]) =
     (NoopSpanContext, Some ErrSpanContextCorrupted) \<and>
   Extract quietEnv Binary OtherCarrier = (NoopSpanContext, Some ErrUnsupportedFormat) \<and>
   Extract quietEnv TextMap OtherCarrier = (NoopSpanContext, Some ErrInvalidCarrier)"
  using Extract_always_context [of quietEnv TextMap "TextMapCarrier [(''ot-tracer-traceid'', ''zz'')]"]
        Extract_always_context [of quietEnv Binary OtherCarrier]
        Extract_always_context [of quietEnv TextMap OtherCarrier]
  by (simp add: eval_simps)

text \<open>
  C2, as amended. In Extract, for every carrier:
  \<^item> keys are matched case-insensitively: two carriers whose entries agree after
    \<^verbatim>\<open>ToLower\<close> of the keys give the same result of the iteration;
  \<^item> an entry whose key lower-cases to the trace-ID or span-ID field name and whose value
    \<^verbatim>\<open>ParseUint\<close> rejects makes the call return the no-op context and
    \<^verbatim>\<open>ErrSpanContextCorrupted\<close>;
  \<^item> an entry whose lower-cased key bears the baggage prefix assigns its value to the
    baggage key that is the suffix of the lower-cased key (not of the key as the carrier
    gives it), and that baggage key is in the baggage when the iteration ends;
  \<^item> all other entries are ignored: dropping them from the carrier does not change the
    result of the iteration.
\<close>

theorem Extract_keys:
  "(map (\<lambda>(k, v). (ToLower u k, v)) kvs = map (\<lambda>(k, v). (ToLower u k, v)) kvs' \<longrightarrow>
      ForeachKey (extractKey u) kvs sc = ForeachKey (extractKey u) kvs' sc) \<and>
   ((fmt = HTTPHeaders \<or> fmt = TextMap) \<and> (k, v) \<in> set kvs \<and>
    (ToLower (unicodeToLower e) k = fieldNameTraceID \<or>
     ToLower (unicodeToLower e) k = fieldNameSpanID) \<and> ParseUint v = None \<longrightarrow>
      Extract e fmt (TextMapCarrier kvs) = (NoopSpanContext, Some ErrSpanContextCorrupted)) \<and>
   (HasPrefix (ToLower u k) prefixBaggage \<longrightarrow>
      extractKey u k v sc =
        Inr (sc\<lparr>Baggage :=
               AList.update (drop (length prefixBaggage) (ToLower u k)) v (Baggage sc)\<rparr>) \<and>
      (\<forall>sc'. (k, v) \<in> set kvs \<and> ForeachKey (extractKey u) kvs sc = Inr sc' \<longrightarrow>
         drop (length prefixBaggage) (ToLower u k) \<in> fst ` set (Baggage sc'))) \<and>
   ForeachKey (extractKey u)
     (filter (\<lambda>(k, v). ToLower u k = fieldNameTraceID \<or> ToLower u k = fieldNameSpanID \<or>
                HasPrefix (ToLower u k) prefixBaggage) kvs) sc =
   ForeachKey (extractKey u) kvs sc"
proof (intro conjI impI allI)
  assume "map (\<lambda>(k, v). (ToLower u k, v)) kvs = map (\<lambda>(k, v). (ToLower u k, v)) kvs'"
  then show "ForeachKey (extractKey u) kvs sc = ForeachKey (extractKey u) kvs' sc"
    by (rule ForeachKey_lower)
next
  assume h: "(fmt = HTTPHeaders \<or> fmt = TextMap) \<and> (k, v) \<in> set kvs \<and>
    (ToLower (unicodeToLower e) k = fieldNameTraceID \<or>
     ToLower (unicodeToLower e) k = fieldNameSpanID) \<and> ParseUint v = None"
  then have "ForeachKey (extractKey (unicodeToLower e)) kvs zeroSpanContext =
      Inl ErrSpanContextCorrupted"
    by (intro ForeachKey_corrupted [of k v]) auto
  with h show "Extract e fmt (TextMapCarrier kvs) = (NoopSpanContext, Some ErrSpanContextCorrupted)"
    by (auto simp: Extract_def)
next
  assume "HasPrefix (ToLower u k) prefixBaggage"
  then show "extractKey u k v sc =
        Inr (sc\<lparr>Baggage :=
               AList.update (drop (length prefixBaggage) (ToLower u k)) v (Baggage sc)\<rparr>)"
    by (rule extractKey_Baggage)
next
  fix sc'
  assume "HasPrefix (ToLower u k) prefixBaggage"
    and "(k, v) \<in> set kvs \<and> ForeachKey (extractKey u) kvs sc = Inr sc'"
  then show "drop (length prefixBaggage) (ToLower u k) \<in> fst ` set (Baggage sc')"
    using ForeachKey_Baggage_entry [of u kvs sc sc' k v] by simp
next
  show "ForeachKey (extractKey u)
     (filter (\<lambda>(k, v). ToLower u k = fieldNameTraceID \<or> ToLower u k = fieldNameSpanID \<or>
                HasPrefix (ToLower u k) prefixBaggage) kvs) sc =
   ForeachKey (extractKey u) kvs sc"
    by (rule ForeachKey_filter)
qed

theorem Extract_keys_witness:
  "ForeachKey (extractKey (\<lambda>s. s)) [(''OT-Baggage-User'', ''42'')] zeroSpanContext =
     ForeachKey (extractKey (\<lambda>s. s)) [(''ot-baggage-user'', ''42'')] zeroSpanContext \<and>
   Extract quietEnv TextMap (TextMapCarrier [(''Ot-Tracer-SpanID'', ''xyz'')]) =
     (NoopSpanContext, Some ErrSpanContextCorrupted) \<and>
   extractKey (\<lambda>s. s) ''Ot-Baggage-User'' ''42'' zeroSpanContext =
     Inr (zeroSpanContext\<lparr>Baggage := [(''user'', ''42'')]\<rparr>) \<and>
   ForeachKey (extractKey (\<lambda>s. s)) [] zeroSpanContext =
     ForeachKey (extractKey (\<lambda>s. s)) [(''x-request-id'', ''7'')] zeroSpanContext"
  using Extract_keys [of "\<lambda>s. s" "[(''OT-Baggage-User'', ''42'')]" "[(''ot-baggage-user'', ''42'')]"
          zeroSpanContext TextMap "''Ot-Tracer-SpanID''" "''xyz''" quietEnv]
        Extract_keys [of "\<lambda>s. s" "[(''x-request-id'', ''7'')]" "[(''x-request-id'', ''7'')]"
          zeroSpanContext TextMap "''Ot-Baggage-User''" "''42''" quietEnv]
  by (simp add: eval_simps)

text \<open>
  Where the case of a baggage key is not kept: the carrier key \<^verbatim>\<open>ot-baggage-User\<close>
  gives the baggage key \<^verbatim>\<open>user\<close>.
\<close>

theorem Extract_keys_counterexample:
  "Extract quietEnv TextMap
     (TextMapCarrier [(''ot-tracer-traceid'', ''1''), (''ot-baggage-User'', ''42'')]) =
   (SpanContextPtr \<lparr>TraceID = 1, SpanID = 0, lightstep = None, recordingGroup = None,
      recordingType = NotRecording, Baggage = [(''user'', ''42'')]\<rparr>, None)"
  by (simp add: eval_simps)

text \<open>
  C3, as amended. For the no-op context (a \<^verbatim>\<open>noopSpanContext\<close> value) Inject leaves
  the carrier as it was and returns nil. Extract, with a supported format, from a carrier
  with no key that lower-cases to the trace-ID or the span-ID field name returns the no-op
  context and nil.
\<close>

theorem noop_propagation:
  "Inject NoopSpanContext fmt c = (None, c) \<and>
   ((fmt' = HTTPHeaders \<or> fmt' = TextMap) \<and>
    (\<forall>(k, v) \<in> set kvs. ToLower (unicodeToLower e) k \<noteq> fieldNameTraceID \<and>
        ToLower (unicodeToLower e) k \<noteq> fieldNameSpanID) \<longrightarrow>
      Extract e fmt' (TextMapCarrier kvs) = (NoopSpanContext, None))"
proof (intro conjI impI)
  show "Inject NoopSpanContext fmt c = (None, c)" by (simp add: Inject_def)
next
  assume h: "(fmt' = HTTPHeaders \<or> fmt' = TextMap) \<and>
    (\<forall>(k, v) \<in> set kvs. ToLower (unicodeToLower e) k \<noteq> fieldNameTraceID \<and>
        ToLower (unicodeToLower e) k \<noteq> fieldNameSpanID)"
  then obtain sc' where "ForeachKey (extractKey (unicodeToLower e)) kvs zeroSpanContext = Inr sc'"
    and "TraceID sc' = 0" and "SpanID sc' = 0"
    using ForeachKey_no_ids [of kvs "unicodeToLower e" zeroSpanContext]
    by (auto simp: zeroSpanContext_def)
  with h show "Extract e fmt' (TextMapCarrier kvs) = (NoopSpanContext, None)"
    by (auto simp: Extract_def)
qed

theorem noop_propagation_witness:
  "Inject NoopSpanContext Binary OtherCarrier = (None, OtherCarrier) \<and>
   Extract quietEnv TextMap (TextMapCarrier [(''ot-baggage-a'', ''b''), (''x'', ''y'')]) =
     (NoopSpanContext, None)"
  using noop_propagation [of Binary OtherCarrier TextMap "[(''ot-baggage-a'', ''b''), (''x'', ''y'')]" quietEnv]
  by (simp add: eval_simps)

text \<open>
  Where emptiness by the IDs is not emptiness by the type: a \<^verbatim>\<open>*spanContext\<close> with
  trace ID 0 and span ID 0 is written into the carrier like any other.
\<close>

theorem noop_propagation_counterexample:
  "Inject (SpanContextPtr \<lparr>TraceID = 0, SpanID = 0, lightstep = None, recordingGroup = None,
        recordingType = NotRecording, Baggage = []\<rparr>) TextMap (TextMapCarrier []) =
     (None, TextMapCarrier [(''ot-tracer-traceid'', ''0''), (''ot-tracer-spanid'', ''0''),
        (''ot-tracer-sampled'', ''true'')])"
  by (simp add: eval_simps)

subsection \<open>Inject followed by Extract\<close>

text \<open>
  C1, as amended. Let \<open>C\<close> be a \<^verbatim>\<open>*spanContext\<close> whose trace ID and span ID are not
  both 0, whose baggage is a map (distinct keys) and whose baggage keys lower-casing leaves
  as they are (\<^verbatim>\<open>ToLower\<close> does not change prefix + key), and let no external backend
  be configured. Then Inject into an empty text-map carrier returns nil, and Extract from
  the carrier it filled, in whatever order the Go map is iterated, returns nil and a
  context with the trace ID, the span ID and the baggage map of \<open>C\<close>. Both calls take
  either supported format.
\<close>

theorem Inject_Extract_roundtrip:
  assumes fmt: "fmt = TextMap \<or> fmt = HTTPHeaders"
      and fmt': "fmt' = TextMap \<or> fmt' = HTTPHeaders"
      and nols: "getLightstep e = None"
      and nonzero: "\<not> (TraceID C = 0 \<and> SpanID C = 0)"
      and dist: "distinct (map fst (Baggage C))"
      and lower: "\<forall>k \<in> fst ` set (Baggage C).
                    ToLower (unicodeToLower e) (prefixBaggage @ k) = prefixBaggage @ k"
  shows "\<exists>m. Inject (SpanContextPtr C) fmt (TextMapCarrier []) = (None, TextMapCarrier m) \<and>
     (\<forall>kvs. distinct (map fst kvs) \<and> map_of kvs = map_of m \<longrightarrow>
        (\<exists>C'. Extract e fmt' (TextMapCarrier kvs) = (SpanContextPtr C', None) \<and>
            TraceID C' = TraceID C \<and> SpanID C' = SpanID C \<and>
            map_of (Baggage C') = map_of (Baggage C)))"
proof -
  let ?u = "unicodeToLower e"
  define base where "base =
    TextMapCarrier_Set fieldNameSampled ''true''
      (TextMapCarrier_Set fieldNameSpanID (FormatUint (SpanID C))
        (TextMapCarrier_Set fieldNameTraceID (FormatUint (TraceID C)) []))"
  define m where "m = fold (\<lambda>(k, v). TextMapCarrier_Set (prefixBaggage @ k) v) (Baggage C) base"
  have inj: "Inject (SpanContextPtr C) fmt (TextMapCarrier []) = (None, TextMapCarrier m)"
    using fmt by (auto simp: Inject_def m_def base_def)
  have base_tid: "map_of base fieldNameTraceID = Some (FormatUint (TraceID C))"
    and base_sid: "map_of base fieldNameSpanID = Some (FormatUint (SpanID C))"
    and base_keys: "fst ` set base = {fieldNameTraceID, fieldNameSpanID, fieldNameSampled}"
    using fieldNames_distinct
    by (auto simp: base_def TextMapCarrier_Set_def)
  have base_bag: "map_of base (prefixBaggage @ b) = None" for b
    using base_keys baggage_key_neq [of b] by (simp add: map_of_eq_None_iff)
  have m_tid: "map_of m fieldNameTraceID = Some (FormatUint (TraceID C))"
    and m_sid: "map_of m fieldNameSpanID = Some (FormatUint (SpanID C))"
    using fieldNames_distinct base_tid base_sid by (simp_all add: m_def fold_Set_other)
  have m_bag: "map_of m (prefixBaggage @ b) = map_of (Baggage C) b" for b
    using dist by (simp add: m_def fold_Set_baggage base_bag split: option.splits)
  have m_keys: "fst ` set m =
      {fieldNameTraceID, fieldNameSpanID, fieldNameSampled} \<union>
      (\<lambda>k. prefixBaggage @ k) ` fst ` set (Baggage C)"
    by (simp add: m_def fold_Set_dom base_keys)
  have m_lower: "\<forall>k \<in> fst ` set m. ToLower ?u k = k"
    unfolding m_keys using lower ToLower_fieldNames by auto
  {
    fix kvs
    assume dk: "distinct (map fst kvs)" and eq: "map_of kvs = map_of m"
    have keys: "fst ` set kvs = fst ` set m"
      using eq by (metis dom_map_of_conv_image_fst)
    with m_lower have low: "\<forall>k \<in> fst ` set kvs. ToLower ?u k = k" by simp
    have parse1: "ParseUint v \<noteq> None"
      if in_kvs: "(k, v) \<in> set kvs"
        and hit: "ToLower ?u k = fieldNameTraceID \<or> ToLower ?u k = fieldNameSpanID" for k v
    proof -
      from in_kvs dk have "map_of kvs k = Some v" by simp
      with eq have mk: "map_of m k = Some v" by simp
      from in_kvs low have "ToLower ?u k = k" by force
      with hit mk m_tid m_sid have "v = FormatUint (TraceID C) \<or> v = FormatUint (SpanID C)" by auto
      then show ?thesis by (auto simp: ParseUint_FormatUint)
    qed
    then have parse: "\<forall>(k, v) \<in> set kvs.
        ToLower ?u k = fieldNameTraceID \<or> ToLower ?u k = fieldNameSpanID \<longrightarrow> ParseUint v \<noteq> None"
      by blast
    from ForeachKey_succeeds [OF parse] obtain C'
      where run: "ForeachKey (extractKey ?u) kvs zeroSpanContext = Inr C'" by blast
    from ForeachKey_TraceID [OF run dk low] eq m_tid
    have tid: "TraceID C' = TraceID C" by (auto simp: ParseUint_FormatUint)
    from ForeachKey_SpanID [OF run dk low] eq m_sid
    have sid: "SpanID C' = SpanID C" by (auto simp: ParseUint_FormatUint)
    have bag: "map_of (Baggage C') = map_of (Baggage C)"
    proof (rule ext)
      fix b
      from ForeachKey_Baggage [OF run dk low, of b] eq m_bag [of b]
      show "map_of (Baggage C') b = map_of (Baggage C) b"
        by (simp add: zeroSpanContext_def split: option.splits)
    qed
    from run tid sid nonzero nols fmt'
    have "Extract e fmt' (TextMapCarrier kvs) = (SpanContextPtr C', None)"
      by (auto simp: Extract_def)
    with tid sid bag
    have "\<exists>C'. Extract e fmt' (TextMapCarrier kvs) = (SpanContextPtr C', None) \<and>
            TraceID C' = TraceID C \<and> SpanID C' = SpanID C \<and>
            map_of (Baggage C') = map_of (Baggage C)"
      by blast
  }
  with inj show ?thesis by blast
qed

theorem Inject_Extract_roundtrip_witness:
  "\<exists>m. Inject (SpanContextPtr \<lparr>TraceID = 1, SpanID = 2, lightstep = None, recordingGroup = None,
        recordingType = NotRecording, Baggage = [(''user'', ''42'')]\<rparr>) TextMap (TextMapCarrier []) =
          (None, TextMapCarrier m) \<and>
     (\<forall>kvs. distinct (map fst kvs) \<and> map_of kvs = map_of m \<longrightarrow>
        (\<exists>C'. Extract quietEnv HTTPHeaders (TextMapCarrier kvs) = (SpanContextPtr C', None) \<and>
            TraceID C' = 1 \<and> SpanID C' = 2 \<and> map_of (Baggage C') = map_of [(''user'', ''42'')]))"
  using Inject_Extract_roundtrip [of TextMap HTTPHeaders quietEnv
      "\<lparr>TraceID = 1, SpanID = 2, lightstep = None, recordingGroup = None,
        recordingType = NotRecording, Baggage = [(''user'', ''42'')]\<rparr>"]
  by (simp add: quietEnv_def ToLower_def isASCII_def lowerByte_def prefixBaggage_def)

text \<open>
  Where the round trip does not give the context back: the baggage key \<^verbatim>\<open>User\<close> comes
  back as \<^verbatim>\<open>user\<close>, and a \<^verbatim>\<open>*spanContext\<close> with both IDs 0 comes back as the
  no-op context, without its baggage.
\<close>

theorem Inject_Extract_roundtrip_counterexample:
  "Inject (SpanContextPtr \<lparr>TraceID = 1, SpanID = 2, lightstep = None, recordingGroup = None,
        recordingType = NotRecording, Baggage = [(''User'', ''42'')]\<rparr>) TextMap (TextMapCarrier []) =
     (None, TextMapCarrier [(''ot-tracer-traceid'', ''1''), (''ot-tracer-spanid'', ''2''),
        (''ot-tracer-sampled'', ''true''), (''ot-baggage-User'', ''42'')]) \<and>
   Extract quietEnv TextMap (TextMapCarrier [(''ot-tracer-traceid'', ''1''), (''ot-tracer-spanid'', ''2''),
        (''ot-tracer-sampled'', ''true''), (''ot-baggage-User'', ''42'')]) =
     (SpanContextPtr \<lparr>TraceID = 1, SpanID = 2, lightstep = None, recordingGroup = None,
        recordingType = NotRecording, Baggage = [(''user'', ''42'')]\<rparr>, None) \<and>
   Inject (SpanContextPtr \<lparr>TraceID = 0, SpanID = 0, lightstep = None, recordingGroup = None,
        recordingType = NotRecording, Baggage = [(''user'', ''42'')]\<rparr>) TextMap (TextMapCarrier []) =
     (None, TextMapCarrier [(''ot-tracer-traceid'', ''0''), (''ot-tracer-spanid'', ''0''),
        (''ot-tracer-sampled'', ''true''), (''ot-baggage-user'', ''42'')]) \<and>
   Extract quietEnv TextMap (TextMapCarrier [(''ot-tracer-traceid'', ''0''), (''ot-tracer-spanid'', ''0''),
        (''ot-tracer-sampled'', ''true''), (''ot-baggage-user'', ''42'')]) =
     (NoopSpanContext, None)"
  by (simp add: eval_simps)

subsection \<open>StartSpan: the options and the parts of a new span\<close>

lemma applyOptions_fold:
  "fold (\<lambda>opt (sso, recordable). (Apply opt sso, recordable \<or> opt = recordableOption)) opts (sso0, r0) =
     (fold Apply opts sso0, r0 \<or> recordableOption \<in> set opts)"
  by (induction opts arbitrary: sso0 r0) auto

lemma applyOptions_eq:
  "applyOptions opts = (fst (applyOptions opts), recordableOption \<in> set opts)"
  by (simp add: applyOptions_def applyOptions_fold)

lemma singleNoopReference_findParent:
  "singleNoopReference opts \<Longrightarrow> findParent (sso_References (fst (applyOptions opts))) = Inr None"
  by (erule singleNoopReference.elims) (simp_all add: applyOptions_def zeroStartSpanOptions_def)

lemma empty_findParent:
  "findParent (sso_References (fst (applyOptions []))) = Inr None"
  by (simp add: applyOptions_def zeroStartSpanOptions_def)

text \<open>
  The references StartSpan scans are the \<^verbatim>\<open>SpanReference\<close> options, in the order
  given; a reference of a recognized type to a \<^verbatim>\<open>*spanContext\<close> at the head of the
  options is the parent.
\<close>

lemma fold_Apply_References:
  "sso_References (fold Apply opts sso0) =
     sso_References sso0 @
     concat (map (\<lambda>opt. case opt of SpanReference ty rc \<Rightarrow> [(ty, rc)] | _ \<Rightarrow> []) opts)"
proof (induction opts arbitrary: sso0)
  case Nil
  show ?case by simp
next
  case (Cons opt opts)
  show ?case by (cases opt) (simp_all add: Cons.IH)
qed

lemma applyOptions_References:
  "sso_References (fst (applyOptions opts)) =
     concat (map (\<lambda>opt. case opt of SpanReference ty rc \<Rightarrow> [(ty, rc)] | _ \<Rightarrow> []) opts)"
  by (simp add: applyOptions_def applyOptions_fold fold_Apply_References zeroStartSpanOptions_def)

lemma findParent_first:
  "ty = ChildOfRef \<or> ty = FollowsFromRef \<Longrightarrow>
   findParent (sso_References (fst (applyOptions (SpanReference ty (SpanContextPtr P) # opts)))) =
     Inr (Some (ty, P))"
  by (auto simp: applyOptions_References)

text \<open>
  The reference loop panics only on a context of another tracer; on references without
  one it returns.
\<close>

lemma findParent_panic:
  "findParent rs = Inl p \<Longrightarrow>
   p = InterfaceConversion \<and> (\<exists>ty h. (ty, ForeignSpanContext h) \<in> set rs)"
proof (induction rs)
  case Nil
  then show ?case by simp
next
  case (Cons r rs)
  obtain ty rc where r: "r = (ty, rc)" by (cases r)
  from Cons show ?case
    by (cases rc) (auto simp: r split: if_splits)
qed

lemma findParent_returns:
  "\<forall>ty h. (ty, ForeignSpanContext h) \<notin> set rs \<Longrightarrow> \<exists>parent. findParent rs = Inr parent"
  using findParent_panic [of rs] by (cases "findParent rs") auto

lemma fold_SetTag:
  "fold (\<lambda>(k, v). SetTag k (f v)) ts s =
     s\<lparr>mu_tags := fold (\<lambda>(k, v). AList.update k (f v)) ts (mu_tags s)\<rparr>"
  by (induction ts arbitrary: s) (auto simp: SetTag_def)

lemma fold_SetTag_id:
  "fold (\<lambda>(k, v). SetTag k v) ts s =
     s\<lparr>mu_tags := fold (\<lambda>(k, v). AList.update k v) ts (mu_tags s)\<rparr>"
  using fold_SetTag [of "\<lambda>v. v"] by simp

lemma wireSpan_ids:
  "TraceID (wireSpan nt lsTr name sso parent recGroup recType s) = TraceID s"
  "SpanID (wireSpan nt lsTr name sso parent recGroup recType s) = SpanID s"
  "s_lightstep (wireSpan nt lsTr name sso parent recGroup recType s) = s_lightstep s"
  by (auto simp: wireSpan_def Let_def copyParent_def enableRecording_def fold_SetTag
        fold_SetTag_id split: option.splits)

lemma wireSpan_parentSpanID:
  "parentSpanID (wireSpan nt lsTr name sso (Some (ty, P)) recGroup recType s) = SpanID P"
  by (auto simp: wireSpan_def Let_def copyParent_def enableRecording_def fold_SetTag
        fold_SetTag_id split: option.splits)

lemma wireSpan_recording:
  "mu_recordingGroup (wireSpan nt lsTr name sso parent (Some g) recType s) = Some g"
  "mu_recordingType (wireSpan nt lsTr name sso parent (Some g) recType s) = recType"
  "mu_recordingGroup (wireSpan nt lsTr name sso parent None recType s) = mu_recordingGroup s"
  "mu_recordingType (wireSpan nt lsTr name sso parent None recType s) = mu_recordingType s"
  by (auto simp: wireSpan_def Let_def copyParent_def enableRecording_def fold_SetTag
        fold_SetTag_id split: option.splits)

lemma newSpan_recording:
  "mu_recordingGroup (newSpan e t name sso) = None"
  "s_lightstep (newSpan e t name sso) = None"
  by (simp_all add: newSpan_def)

lemma assignIDs_None:
  "assignIDs e None name sso parent s =
     Inr (s\<lparr>SpanID := rand1 e,
            TraceID := (case parent of None \<Rightarrow> rand2 e | Some (ty, P) \<Rightarrow> TraceID P)\<rparr>)"
  by (simp add: assignIDs_def)

lemma assignIDs_parent_TraceID:
  "assignIDs e lsTr name sso (Some (ty, P)) s = Inr s' \<Longrightarrow> TraceID s' = TraceID P"
  by (auto simp: assignIDs_def Let_def split: option.splits sum.splits if_splits prod.splits)

lemma assignIDs_lightstep:
  "assignIDs e lsTr name sso parent s = Inr s' \<Longrightarrow> s_lightstep s = None \<Longrightarrow>
   (s_lightstep s' = None) = (lsTr = None)"
  by (auto simp: assignIDs_def Let_def split: option.splits sum.splits if_splits prod.splits)

lemma assignIDs_recording:
  "assignIDs e lsTr name sso parent s = Inr s' \<Longrightarrow>
   mu_recordingGroup s' = mu_recordingGroup s \<and> mu_recordingType s' = mu_recordingType s"
  by (auto simp: assignIDs_def Let_def split: option.splits sum.splits if_splits prod.splits)

lemma assignIDs_mismatch:
  "lightstepOptions sso (Some (ty, P)) = Inr lsOpts \<Longrightarrow>
   getLightstepSpanIDs ls (ls_Context ls (ls_StartSpan ls name lsOpts)) = Inr (tid, sid) \<Longrightarrow>
   tid \<noteq> TraceID P \<Longrightarrow>
   assignIDs e (Some ls) name sso (Some (ty, P)) s = Inl (TraceIDMismatch (TraceID P) tid)"
  by (simp add: assignIDs_def Let_def)

text \<open>StartSpan once the reference loop has found a parent.\<close>

lemma StartSpan_parent:
  assumes "findParent (sso_References (fst (applyOptions opts))) = Inr (Some (ty, P))"
  shows "StartSpan e t name opts =
    (case inheritRecording (newSpanGroup e) (Some (ty, P)) of
       (recGroup, recType) \<Rightarrow>
         (let lsTr = (if lightstep P = None then None else getLightstep e)
          in if recordableOption \<notin> set opts \<and> recGroup = None \<and> lsTr = None \<and> \<not> enableNetTrace e
             then Inr (NoopSpanPtr t)
             else
               (case assignIDs e lsTr name (fst (applyOptions opts)) (Some (ty, P))
                       (newSpan e t name (fst (applyOptions opts))) of
                  Inl p \<Rightarrow> Inl p
                | Inr s \<Rightarrow>
                    Inr (SpanPtr (wireSpan (enableNetTrace e) lsTr name (fst (applyOptions opts))
                                    (Some (ty, P)) recGroup recType s)))))"
proof -
  from assms have 1: "\<not> singleNoopReference opts"
    using singleNoopReference_findParent [of opts] by auto
  from assms have 2: "opts \<noteq> []" using empty_findParent by auto
  show ?thesis
    unfolding StartSpan_def
    by (subst applyOptions_eq) (simp add: 1 2 assms)
qed

lemma StartSpan_bound:
  assumes par: "findParent (sso_References (fst (applyOptions opts))) = Inr (Some (ty, P))"
      and ir: "inheritRecording (newSpanGroup e) (Some (ty, P)) = (Some g, recType)"
  shows "(\<forall>r. StartSpan e t name opts = Inr r \<longrightarrow>
            (\<exists>s. r = SpanPtr s \<and> mu_recordingGroup s = Some g \<and> mu_recordingType s = recType)) \<and>
         (getLightstep e = None \<or> lightstep P = None \<longrightarrow> (\<exists>r. StartSpan e t name opts = Inr r))"
  by (auto simp: StartSpan_parent [OF par] ir Let_def wireSpan_recording assignIDs_None
        split: sum.splits)

subsection \<open>StartSpan: the claims\<close>

text \<open>
  C4. Let \<open>P\<close> be the parent the reference loop of StartSpan selects. Every real span the
  call returns has the trace ID of \<open>P\<close> and the span ID of \<open>P\<close> as its parent span
  ID. When the external backend is in use for the span (it is configured and \<open>P\<close> has a
  shadow context) and the shadow span reports a trace ID other than that of \<open>P\<close>, the
  call panics with the mismatch and returns no span.
\<close>

theorem StartSpan_parent_ids:
  assumes par: "findParent (sso_References (fst (applyOptions opts))) = Inr (Some (ty, P))"
  shows "(\<forall>s. StartSpan e t name opts = Inr (SpanPtr s) \<longrightarrow>
            TraceID s = TraceID P \<and> parentSpanID s = SpanID P) \<and>
         (\<forall>ls lsOpts tid sid.
            getLightstep e = Some ls \<and> lightstep P \<noteq> None \<and>
            lightstepOptions (fst (applyOptions opts)) (Some (ty, P)) = Inr lsOpts \<and>
            getLightstepSpanIDs ls (ls_Context ls (ls_StartSpan ls name lsOpts)) = Inr (tid, sid) \<and>
            tid \<noteq> TraceID P \<longrightarrow>
            StartSpan e t name opts = Inl (TraceIDMismatch (TraceID P) tid))"
proof (intro conjI allI impI)
  fix s
  assume r: "StartSpan e t name opts = Inr (SpanPtr s)"
  obtain recGroup recType
    where ir: "inheritRecording (newSpanGroup e) (Some (ty, P)) = (recGroup, recType)"
    by (cases "inheritRecording (newSpanGroup e) (Some (ty, P))")
  define lsTr where "lsTr = (if lightstep P = None then None else getLightstep e)"
  define sso where "sso = fst (applyOptions opts)"
  from r obtain s1
    where a: "assignIDs e lsTr name sso (Some (ty, P)) (newSpan e t name sso) = Inr s1"
      and s: "s = wireSpan (enableNetTrace e) lsTr name sso (Some (ty, P)) recGroup recType s1"
    by (auto simp: StartSpan_parent [OF par] ir Let_def lsTr_def sso_def
          split: if_splits sum.splits)
  from assignIDs_parent_TraceID [OF a] show "TraceID s = TraceID P"
    by (simp add: s wireSpan_ids)
  show "parentSpanID s = SpanID P"
    by (simp add: s wireSpan_parentSpanID)
next
  fix ls lsOpts tid sid
  assume h: "getLightstep e = Some ls \<and> lightstep P \<noteq> None \<and>
            lightstepOptions (fst (applyOptions opts)) (Some (ty, P)) = Inr lsOpts \<and>
            getLightstepSpanIDs ls (ls_Context ls (ls_StartSpan ls name lsOpts)) = Inr (tid, sid) \<and>
            tid \<noteq> TraceID P"
  then have "assignIDs e (Some ls) name (fst (applyOptions opts)) (Some (ty, P))
      (newSpan e t name (fst (applyOptions opts))) = Inl (TraceIDMismatch (TraceID P) tid)"
    by (intro assignIDs_mismatch) auto
  with h show "StartSpan e t name opts = Inl (TraceIDMismatch (TraceID P) tid)"
    by (auto simp: StartSpan_parent [OF par] Let_def split: prod.splits)
qed

theorem StartSpan_parent_ids_witness:
  "(\<exists>s. StartSpan quietEnv 0 ''op''
          [SpanReference ChildOfRef (SpanContextPtr \<lparr>TraceID = 10, SpanID = 2, lightstep = None,
             recordingGroup = None, recordingType = NotRecording, Baggage = []\<rparr>),
           recordableOption] = Inr (SpanPtr s) \<and>
        TraceID s = 10 \<and> parentSpanID s = 2) \<and>
   (\<exists>s. StartSpan shadowEnv 0 ''op''
          [SpanReference ChildOfRef (SpanContextPtr \<lparr>TraceID = 10, SpanID = 2, lightstep = Some 4,
             recordingGroup = None, recordingType = NotRecording, Baggage = []\<rparr>)] =
          Inr (SpanPtr s) \<and>
        TraceID s = 10 \<and> SpanID s = 11 \<and> parentSpanID s = 2 \<and> s_lightstep s = Some 9) \<and>
   StartSpan shadowEnv 0 ''op''
     [SpanReference ChildOfRef (SpanContextPtr \<lparr>TraceID = 1, SpanID = 2, lightstep = Some 4,
        recordingGroup = None, recordingType = NotRecording, Baggage = []\<rparr>)] =
     Inl (TraceIDMismatch 1 10)"
  using StartSpan_parent_ids [of
          "[SpanReference ChildOfRef (SpanContextPtr \<lparr>TraceID = 10, SpanID = 2, lightstep = None,
             recordingGroup = None, recordingType = NotRecording, Baggage = []\<rparr>),
           recordableOption]" ChildOfRef _ quietEnv 0 "''op''"]
        StartSpan_parent_ids [of
          "[SpanReference ChildOfRef (SpanContextPtr \<lparr>TraceID = 1, SpanID = 2, lightstep = Some 4,
             recordingGroup = None, recordingType = NotRecording, Baggage = []\<rparr>)]"
          ChildOfRef _ shadowEnv 0 "''op''"]
  by (simp add: StartSpan_eval)

text \<open>
  C5, as amended. With the debug feed off, no external backend configured, no
  \<^verbatim>\<open>Recordable\<close> option among the options, a reference loop that returns (it meets
  no context of another tracer before it stops), and either no parent or a parent with no
  recording group and no snowball baggage, StartSpan on the Tracer at address \<open>t\<close>
  returns the address of that Tracer's \<^verbatim>\<open>noopSpan\<close> field.
\<close>

theorem StartSpan_singleton_noop:
  assumes "\<not> enableNetTrace e" and "getLightstep e = None" and "recordableOption \<notin> set opts"
      and par: "findParent (sso_References (fst (applyOptions opts))) = Inr parent"
      and quiet: "\<forall>ty P. parent = Some (ty, P) \<longrightarrow>
                    recordingGroup P = None \<and> mapIndex (Baggage P) Snowball = []"
  shows "StartSpan e t name opts = Inr (NoopSpanPtr t)"
proof (cases parent)
  case None
  with assms show ?thesis
    unfolding StartSpan_def
    by (subst applyOptions_eq) (simp add: inheritRecording_def)
next
  case (Some p)
  obtain ty P where p: "p = (ty, P)" by (cases p)
  from quiet Some p have "inheritRecording (newSpanGroup e) (Some (ty, P)) = (None, NotRecording)"
    by (simp add: inheritRecording_def)
  with assms(1-3) show ?thesis
    using StartSpan_parent [of opts ty P e t name] par Some p by simp
qed

theorem StartSpan_singleton_noop_witness:
  "StartSpan quietEnv 7 ''op''
     [SpanReference FollowsFromRef (SpanContextPtr \<lparr>TraceID = 1, SpanID = 2, lightstep = None,
        recordingGroup = None, recordingType = NotRecording, Baggage = [(''user'', ''42'')]\<rparr>),
      Tag ''k'' (StringTag ''v'')] = Inr (NoopSpanPtr 7)"
  using StartSpan_singleton_noop [of quietEnv
     "[SpanReference FollowsFromRef (SpanContextPtr \<lparr>TraceID = 1, SpanID = 2, lightstep = None,
        recordingGroup = None, recordingType = NotRecording, Baggage = [(''user'', ''42'')]\<rparr>),
      Tag ''k'' (StringTag ''v'')]" _ 7 "''op''"]
  by (simp add: StartSpan_eval)

text \<open>
  Where no span is returned at all: under the same four conditions a reference to a
  context of another tracer makes the unchecked type assertion of the reference loop
  panic.
\<close>

theorem StartSpan_singleton_noop_counterexample:
  "\<not> enableNetTrace quietEnv \<and> getLightstep quietEnv = None \<and>
   recordableOption \<notin> set [SpanReference ChildOfRef (ForeignSpanContext 7)] \<and>
   StartSpan quietEnv 0 ''op'' [SpanReference ChildOfRef (ForeignSpanContext 7)] =
     Inl InterfaceConversion"
  by (simp add: StartSpan_eval)

text \<open>
  C6, as amended. Let \<open>P\<close> be the parent the reference loop selects. If \<open>P\<close> carries a
  recording group, whatever StartSpan returns is a real span bound to that group with the
  recording type of \<open>P\<close>. If \<open>P\<close> carries none and the snowball key of its baggage has
  a non-empty value, whatever StartSpan returns is a real span bound to a newly allocated
  group with \<^verbatim>\<open>SnowballRecording\<close>. In both cases StartSpan does return when the
  backend is not configured or \<open>P\<close> has no shadow context (with the backend in use the
  call may panic instead).
\<close>

theorem StartSpan_recording_inheritance:
  assumes par: "findParent (sso_References (fst (applyOptions opts))) = Inr (Some (ty, P))"
  shows "(\<forall>g. recordingGroup P = Some g \<longrightarrow>
            (\<forall>r. StartSpan e t name opts = Inr r \<longrightarrow>
               (\<exists>s. r = SpanPtr s \<and> mu_recordingGroup s = Some g \<and>
                    mu_recordingType s = recordingType P)) \<and>
            (getLightstep e = None \<or> lightstep P = None \<longrightarrow>
               (\<exists>r. StartSpan e t name opts = Inr r))) \<and>
         (recordingGroup P = None \<and> mapIndex (Baggage P) Snowball \<noteq> [] \<longrightarrow>
            (\<forall>r. StartSpan e t name opts = Inr r \<longrightarrow>
               (\<exists>s. r = SpanPtr s \<and> mu_recordingGroup s = Some (newSpanGroup e) \<and>
                    mu_recordingType s = SnowballRecording)) \<and>
            (getLightstep e = None \<or> lightstep P = None \<longrightarrow>
               (\<exists>r. StartSpan e t name opts = Inr r)))"
proof (intro conjI allI impI)
  fix g
  assume "recordingGroup P = Some g"
  then have ir: "inheritRecording (newSpanGroup e) (Some (ty, P)) = (Some g, recordingType P)"
    by (simp add: inheritRecording_def)
  note b = StartSpan_bound [OF par ir, of t name]
  from b show "\<And>r. StartSpan e t name opts = Inr r \<Longrightarrow>
      \<exists>s. r = SpanPtr s \<and> mu_recordingGroup s = Some g \<and> mu_recordingType s = recordingType P"
    by blast
  from b show "getLightstep e = None \<or> lightstep P = None \<Longrightarrow> \<exists>r. StartSpan e t name opts = Inr r"
    by blast
next
  assume "recordingGroup P = None \<and> mapIndex (Baggage P) Snowball \<noteq> []"
  then have ir: "inheritRecording (newSpanGroup e) (Some (ty, P)) =
      (Some (newSpanGroup e), SnowballRecording)"
    by (simp add: inheritRecording_def)
  note b = StartSpan_bound [OF par ir, of t name]
  from b show "\<And>r. StartSpan e t name opts = Inr r \<Longrightarrow>
      \<exists>s. r = SpanPtr s \<and> mu_recordingGroup s = Some (newSpanGroup e) \<and>
          mu_recordingType s = SnowballRecording"
    by blast
  from b show "getLightstep e = None \<or> lightstep P = None \<Longrightarrow> \<exists>r. StartSpan e t name opts = Inr r"
    by blast
qed

theorem StartSpan_recording_inheritance_witness:
  "(\<exists>s. StartSpan quietEnv 0 ''op''
          [SpanReference ChildOfRef (SpanContextPtr \<lparr>TraceID = 1, SpanID = 2, lightstep = None,
             recordingGroup = Some 3, recordingType = SnowballRecording, Baggage = []\<rparr>)] =
          Inr (SpanPtr s) \<and>
        mu_recordingGroup s = Some 3 \<and> mu_recordingType s = SnowballRecording) \<and>
   (\<exists>s. StartSpan quietEnv 0 ''op''
          [SpanReference ChildOfRef (SpanContextPtr \<lparr>TraceID = 1, SpanID = 2, lightstep = None,
             recordingGroup = None, recordingType = NotRecording, Baggage = [(''sb'', ''1'')]\<rparr>)] =
          Inr (SpanPtr s) \<and>
        mu_recordingGroup s = Some (newSpanGroup quietEnv) \<and>
        mu_recordingType s = SnowballRecording)"
  using StartSpan_recording_inheritance [of
          "[SpanReference ChildOfRef (SpanContextPtr \<lparr>TraceID = 1, SpanID = 2, lightstep = None,
             recordingGroup = Some 3, recordingType = SnowballRecording, Baggage = []\<rparr>)]"
          ChildOfRef _ quietEnv 0 "''op''"]
        StartSpan_recording_inheritance [of
          "[SpanReference ChildOfRef (SpanContextPtr \<lparr>TraceID = 1, SpanID = 2, lightstep = None,
             recordingGroup = None, recordingType = NotRecording, Baggage = [(''sb'', ''1'')]\<rparr>)]"
          ChildOfRef _ quietEnv 0 "''op''"]
  by (simp add: StartSpan_eval)

text \<open>
  Where the snowball key alone does not start a recording: the parent's baggage holds the
  key \<^verbatim>\<open>sb\<close> with the empty value, and the span returned under the
  \<^verbatim>\<open>Recordable\<close> option is bound to no group; without that option the call returns
  the no-op span.
\<close>

theorem StartSpan_recording_inheritance_counterexample:
  "map_of (Baggage \<lparr>TraceID = 1, SpanID = 2, lightstep = None, recordingGroup = None,
       recordingType = NotRecording, Baggage = [(''sb'', '''')]\<rparr>) Snowball = Some '''' \<and>
   StartSpan quietEnv 0 ''op''
     [SpanReference ChildOfRef (SpanContextPtr \<lparr>TraceID = 1, SpanID = 2, lightstep = None,
        recordingGroup = None, recordingType = NotRecording, Baggage = [(''sb'', '''')]\<rparr>),
      recordableOption] =
     Inr (SpanPtr \<lparr>TraceID = 1, SpanID = 5, tracer = 0, operation = ''op'', startTime = 100,
        mu_duration = - 1, s_lightstep = None, parentSpanID = 2, netTr = None,
        mu_Baggage = [(''sb'', '''')], mu_tags = [], mu_recordingGroup = None,
        mu_recordingType = NotRecording\<rparr>) \<and>
   StartSpan quietEnv 0 ''op''
     [SpanReference ChildOfRef (SpanContextPtr \<lparr>TraceID = 1, SpanID = 2, lightstep = None,
        recordingGroup = None, recordingType = NotRecording, Baggage = [(''sb'', '''')]\<rparr>)] =
     Inr (NoopSpanPtr 0)"
  by (simp add: StartSpan_eval)

text \<open>
  C7. Let \<open>P\<close> be the parent the reference loop selects, with no shadow context of the
  external backend. Then StartSpan returns, what it returns is the no-op span or a real
  span without a shadow span, and the result is the one StartSpan gives with no backend
  configured at all: the backend is not consulted.
\<close>

theorem StartSpan_no_shadow:
  assumes par: "findParent (sso_References (fst (applyOptions opts))) = Inr (Some (ty, P))"
      and nols: "lightstep P = None"
  shows "(\<exists>r. StartSpan e t name opts = Inr r \<and>
            (case r of NoopSpanPtr t' \<Rightarrow> t' = t | SpanPtr s \<Rightarrow> s_lightstep s = None)) \<and>
         StartSpan e t name opts = StartSpan (e\<lparr>getLightstep := None\<rparr>) t name opts"
proof
  obtain recGroup recType
    where ir: "inheritRecording (newSpanGroup e) (Some (ty, P)) = (recGroup, recType)"
    by (cases "inheritRecording (newSpanGroup e) (Some (ty, P))")
  show "\<exists>r. StartSpan e t name opts = Inr r \<and>
            (case r of NoopSpanPtr t' \<Rightarrow> t' = t | SpanPtr s \<Rightarrow> s_lightstep s = None)"
    by (simp add: StartSpan_parent [OF par] ir nols assignIDs_None wireSpan_ids newSpan_def)
  show "StartSpan e t name opts = StartSpan (e\<lparr>getLightstep := None\<rparr>) t name opts"
    by (simp add: StartSpan_parent [OF par] ir nols assignIDs_None newSpan_def)
qed

theorem StartSpan_no_shadow_witness:
  "getLightstep shadowEnv = Some exampleLightstep \<and>
   (\<exists>s. StartSpan shadowEnv 0 ''op''
          [SpanReference ChildOfRef (SpanContextPtr \<lparr>TraceID = 1, SpanID = 2, lightstep = None,
             recordingGroup = None, recordingType = NotRecording, Baggage = []\<rparr>),
           recordableOption] = Inr (SpanPtr s) \<and> s_lightstep s = None \<and> TraceID s = 1)"
  using StartSpan_no_shadow [of
          "[SpanReference ChildOfRef (SpanContextPtr \<lparr>TraceID = 1, SpanID = 2, lightstep = None,
             recordingGroup = None, recordingType = NotRecording, Baggage = []\<rparr>),
           recordableOption]" ChildOfRef _ shadowEnv 0 "''op''"]
  by (simp add: StartSpan_eval)

end
